theory Spec2Isabelle
  imports Main "HOL-Library.Word"
begin

section \<open>Data model\<close>

text \<open>
  Slots and epochs are Go \<^verbatim>\<open>uint64\<close> values, block roots are \<^verbatim>\<open>[32]byte\<close> arrays.
  The byte-slice fields that carry a root (\<^verbatim>\<open>ParentRoot\<close>, \<^verbatim>\<open>LatestRoot\<close>,
  \<^verbatim>\<open>BoundaryRoot\<close>) are read back with \<^verbatim>\<open>bytesutil.ToBytes32\<close>, so they are roots too.
  The zero value \<^verbatim>\<open>[32]byte{}\<close> is the word \<open>0\<close>.
\<close>

type_synonym slot = "64 word"
type_synonym root = "256 word"

record BeaconBlock =
  blk_Slot :: slot
  blk_ParentRoot :: root
  blk_StateRoot :: root

text \<open>The consensus state is opaque to this package except for its slot.\<close>

record BeaconState =
  st_Slot :: slot
  st_Payload :: nat

record HotStateSummary =
  sum_Slot :: slot
  sum_LatestRoot :: root
  sum_BoundaryRoot :: root

record SplitInfo =
  split_slot :: slot
  split_root :: root

subsection \<open>Failures\<close>

text \<open>
  A Go function of this package ends in one of three ways: it returns a value, it returns a
  non-nil \<^verbatim>\<open>error\<close>, or it panics at run time. The errors made with
  \<^verbatim>\<open>errors.New\<close> in \<^verbatim>\<open>hot.go\<close> each have a constructor of their own, as has the one
  the tests expect of \<^verbatim>\<open>LoadBlocks\<close>; \<open>message\<close> gives their text. The other errors come
  from the store, the hasher and the replayer, whose texts the sources do not give.
\<close>

datatype replay_error = ReplayPastTarget | StateTransitionError

datatype error =
    StoreError
  | HashError
  | NilHotStateSummary
  | NilBoundaryState
  | BoundaryRootNotCached
  | IncorrectBoundaryLength
  | ChainMismatch
  | BlockNotFound
  | ReplayError replay_error

datatype panic = IndexOutOfRange | NilDereference | DivideByZero

datatype failure = Err error | Panic panic

fun message :: "error \<Rightarrow> string option" where
  "message NilHotStateSummary = Some ''nil hot state summary''"
| "message NilBoundaryState = Some ''boundary state can't be nil''"
| "message BoundaryRootNotCached = Some ''epoch boundary root is not cached''"
| "message IncorrectBoundaryLength = Some ''incorrect length for epoch boundary root''"
| "message ChainMismatch = Some ''end block roots don't match''"
| "message e = None"

subsection \<open>What the package consumes\<close>

text \<open>
  The chain configuration (\<^verbatim>\<open>params.BeaconConfig().SlotsPerEpoch\<close>), the hasher
  (\<^verbatim>\<open>ssz.HashTreeRoot\<close>, which returns a root or an error) and the replayer
  (\<^verbatim>\<open>ReplayBlocks\<close>, built on the external state-transition function) are not in
  \<^verbatim>\<open>hot.go\<close>; they are parameters of the model.
\<close>

record env =
  SlotsPerEpoch :: slot
  HashTreeRoot :: "BeaconBlock \<Rightarrow> root option"
  ReplayBlocks :: "BeaconState \<Rightarrow> BeaconBlock list \<Rightarrow> slot \<Rightarrow> replay_error + BeaconState"

text \<open>
  Modelled from the spec: the helpers \<^verbatim>\<open>helpers.SlotToEpoch\<close>, \<^verbatim>\<open>helpers.StartSlot\<close>,
  \<^verbatim>\<open>helpers.CurrentEpoch\<close> and \<^verbatim>\<open>helpers.IsEpochStart\<close> are missing from the sources.
  The spec's glossary gives them: an epoch is \<^verbatim>\<open>SLOTS_PER_EPOCH\<close> slots, an epoch boundary is
  a slot \<open>S\<close> with \<open>S mod SLOTS_PER_EPOCH = 0\<close>, and the boundary slot of a state is
  \<open>current_epoch(state) * SLOTS_PER_EPOCH\<close>. Go's integer division panics on a zero
  divisor, where HOL's returns 0.
\<close>

definition SlotToEpoch :: "env \<Rightarrow> slot \<Rightarrow> failure + slot" where
  "SlotToEpoch env s =
     (if SlotsPerEpoch env = 0 then Inl (Panic DivideByZero) else Inr (s div SlotsPerEpoch env))"

definition StartSlot :: "env \<Rightarrow> slot \<Rightarrow> slot" where
  "StartSlot env epoch = epoch * SlotsPerEpoch env"

definition CurrentEpoch :: "env \<Rightarrow> BeaconState \<Rightarrow> failure + slot" where
  "CurrentEpoch env state = SlotToEpoch env (st_Slot state)"

definition IsEpochStart :: "env \<Rightarrow> slot \<Rightarrow> failure + bool" where
  "IsEpochStart env s =
     (if SlotsPerEpoch env = 0 then Inl (Panic DivideByZero) else Inr (s mod SlotsPerEpoch env = 0))"

subsection \<open>The block store\<close>

text \<open>
  Modelled from the spec: the database behind \<^verbatim>\<open>s.beaconDB\<close> is missing from the sources.
  Section 4.1 of the spec gives its contract: every operation can fail with a store error;
  \<open>block\<close>, \<open>state\<close> and \<open>hot_summary\<close> return an optional value; \<open>block_roots\<close> returns
  the root of every persisted block whose slot lies in the inclusive window, in ascending
  slot order, siblings of one slot in insertion order; \<open>save_state\<close> and
  \<open>save_hot_summary\<close> persist (a summary under its \<open>latest_root\<close>, the block's own root).
  The blocks are kept as an association list in insertion order, a root standing for the
  first block stored under it. \<open>failing\<close> says which calls the store answers with an
  error; \<^verbatim>\<open>HasHotStateSummary\<close> has no error result in \<^verbatim>\<open>hot.go\<close>.
\<close>

datatype db_call =
    Call_State root
  | Call_SaveState root
  | Call_HotStateSummary root
  | Call_SaveHotStateSummary root
  | Call_GenesisBlock
  | Call_BlockRoots slot slot
  | Call_Block root

record DB =
  blocks :: "(root \<times> BeaconBlock) list"
  states :: "root \<rightharpoonup> BeaconState"
  summaries :: "root \<rightharpoonup> HotStateSummary"
  genesis :: BeaconBlock
  failing :: "db_call \<Rightarrow> bool"

definition db_HasHotStateSummary :: "DB \<Rightarrow> root \<Rightarrow> bool" where
  "db_HasHotStateSummary db r = (summaries db r \<noteq> None)"

definition db_HotStateSummary :: "DB \<Rightarrow> root \<Rightarrow> failure + HotStateSummary option" where
  "db_HotStateSummary db r =
     (if failing db (Call_HotStateSummary r) then Inl (Err StoreError) else Inr (summaries db r))"

definition db_SaveHotStateSummary :: "DB \<Rightarrow> HotStateSummary \<Rightarrow> failure + DB" where
  "db_SaveHotStateSummary db sm =
     (if failing db (Call_SaveHotStateSummary (sum_LatestRoot sm)) then Inl (Err StoreError)
      else Inr (db\<lparr>summaries := (summaries db)(sum_LatestRoot sm \<mapsto> sm)\<rparr>))"

definition db_State :: "DB \<Rightarrow> root \<Rightarrow> failure + BeaconState option" where
  "db_State db r =
     (if failing db (Call_State r) then Inl (Err StoreError) else Inr (states db r))"

definition db_SaveState :: "DB \<Rightarrow> BeaconState \<Rightarrow> root \<Rightarrow> failure + DB" where
  "db_SaveState db state r =
     (if failing db (Call_SaveState r) then Inl (Err StoreError)
      else Inr (db\<lparr>states := (states db)(r \<mapsto> state)\<rparr>))"

definition db_GenesisBlock :: "DB \<Rightarrow> failure + BeaconBlock" where
  "db_GenesisBlock db =
     (if failing db Call_GenesisBlock then Inl (Err StoreError) else Inr (genesis db))"

definition db_Block :: "DB \<Rightarrow> root \<Rightarrow> failure + BeaconBlock option" where
  "db_Block db r =
     (if failing db (Call_Block r) then Inl (Err StoreError) else Inr (map_of (blocks db) r))"

definition in_window :: "DB \<Rightarrow> slot \<Rightarrow> slot \<Rightarrow> root \<times> BeaconBlock \<Rightarrow> bool" where
  "in_window db startSlot endSlot rb =
     (startSlot \<le> blk_Slot (snd rb) \<and> blk_Slot (snd rb) \<le> endSlot
      \<and> map_of (blocks db) (fst rb) = Some (snd rb))"

definition db_BlockRoots :: "DB \<Rightarrow> slot \<Rightarrow> slot \<Rightarrow> failure + root list" where
  "db_BlockRoots db startSlot endSlot =
     (if failing db (Call_BlockRoots startSlot endSlot) then Inl (Err StoreError)
      else Inr (map fst (sort_key (\<lambda>rb. blk_Slot (snd rb))
                  (filter (in_window db startSlot endSlot) (blocks db)))))"

section \<open>The state generation service\<close>

text \<open>
  The receiver \<^verbatim>\<open>s *State\<close>: its database, its in-memory map from epoch-boundary slot to
  block root, and the finalized split point. The two Prometheus counters
  \<^verbatim>\<open>hotStateSaved\<close> and \<^verbatim>\<open>hotSummarySaved\<close> are kept with it so that their increments
  can be observed.
\<close>

record State =
  beaconDB :: DB
  epochBoundarySlotToRoot :: "slot \<rightharpoonup> root"
  splitInfo :: SplitInfo
  hotStateSaved :: nat
  hotSummarySaved :: nat

text \<open>
  Modelled from the spec: the accessors \<^verbatim>\<open>s.epochBoundaryRoot\<close> and
  \<^verbatim>\<open>s.setEpochBoundaryRoot\<close> are missing from the sources. Section 4.3 of the spec gives them
  as \<open>get(slot)\<close>, a lookup, and \<open>put(slot, root)\<close>, an insert that overwrites. The getter
  has Go's comma-ok shape: on a miss it returns the zero root and \<open>False\<close>.
\<close>

definition epochBoundaryRoot :: "State \<Rightarrow> slot \<Rightarrow> root \<times> bool" where
  "epochBoundaryRoot s sl =
     (case epochBoundarySlotToRoot s sl of Some r \<Rightarrow> (r, True) | None \<Rightarrow> (0, False))"

definition setEpochBoundaryRoot :: "State \<Rightarrow> slot \<Rightarrow> root \<Rightarrow> State" where
  "setEpochBoundaryRoot s sl r =
     s\<lparr>epochBoundarySlotToRoot := (epochBoundarySlotToRoot s)(sl \<mapsto> r)\<rparr>"

subsection \<open>The block chain reconstructor\<close>

text \<open>
  Modelled from the spec: \<^verbatim>\<open>LoadBlocks\<close> is missing from the sources; only its tests and
  its callers are there. Section 4.4 of the spec gives the walk:
  \<^enum> query \<open>block_roots(start_slot, end_slot)\<close> for the candidates \<open>R\<close>, ascending by slot;
  \<^enum> fetch the block for \<open>end_root\<close> and assert that its root equals \<open>end_root\<close>, failing
    with \<open>ChainMismatch\<close> (\<^verbatim>\<open>end block roots don't match\<close>) otherwise;
  \<^enum> start the output with the end block, the cursor being its parent root;
  \<^enum> go through \<open>R\<close> from the highest slot downward: a candidate whose block hashes to the
    cursor is appended and the cursor moves to its parent root, any other is skipped;
  \<^enum> stop when the cursor designates a block whose slot is below \<open>start_slot\<close>, or when
    \<open>R\<close> is exhausted.
  The end block is one of the window's candidates: the spec's scenario
  \<open>load_blocks(0, 5, root(B8))\<close> and the test \<^verbatim>\<open>TestLoadBlocks_BadStart\<close> fail with
  \<open>ChainMismatch\<close> because B8, though stored, lies outside the window. A root the store
  has no block for is the spec's \<open>NotFound\<close> (here \<open>BlockNotFound\<close>), store errors are
  propagated.
\<close>

fun walk ::
  "env \<Rightarrow> DB \<Rightarrow> slot \<Rightarrow> root \<Rightarrow> root list \<Rightarrow> BeaconBlock list \<Rightarrow> failure + BeaconBlock list"
where
  "walk env db startSlot cursor [] out = Inr out"
| "walk env db startSlot cursor (c # cs) out =
     (case db_Block db cursor of
        Inl e \<Rightarrow> Inl e
      | Inr parent \<Rightarrow>
          if (case parent of None \<Rightarrow> False | Some p \<Rightarrow> blk_Slot p < startSlot) then Inr out
          else
            (case db_Block db c of
               Inl e \<Rightarrow> Inl e
             | Inr None \<Rightarrow> Inl (Err BlockNotFound)
             | Inr (Some b) \<Rightarrow>
                 if HashTreeRoot env b = Some cursor
                 then walk env db startSlot (blk_ParentRoot b) cs (out @ [b])
                 else walk env db startSlot cursor cs out))"

definition LoadBlocks ::
  "env \<Rightarrow> State \<Rightarrow> slot \<Rightarrow> slot \<Rightarrow> root \<Rightarrow> failure + BeaconBlock list"
where
  "LoadBlocks env s startSlot endSlot endBlockRoot =
     (case db_BlockRoots (beaconDB s) startSlot endSlot of
        Inl e \<Rightarrow> Inl e
      | Inr rs \<Rightarrow>
          (case db_Block (beaconDB s) endBlockRoot of
             Inl e \<Rightarrow> Inl e
           | Inr None \<Rightarrow> Inl (Err BlockNotFound)
           | Inr (Some endBlock) \<Rightarrow>
               if endBlockRoot \<in> set rs \<and> HashTreeRoot env endBlock = Some endBlockRoot
               then walk env (beaconDB s) startSlot (blk_ParentRoot endBlock) (rev rs) [endBlock]
               else Inl (Err ChainMismatch)))"

subsection \<open>The hot path (hot.go)\<close>

text \<open>
  The functions below follow \<^verbatim>\<open>hot.go\<close> line by line. A function that writes to the
  database or to the boundary map returns the service with its result, also when it fails:
  what it wrote before failing stays written. A method call on a nil
  \<^verbatim>\<open>*state.BeaconState\<close> or a field read through a nil block is a nil dereference, and
  \<^verbatim>\<open>rs[len(rs)-1]\<close> on an empty slice is an index out of range: both are panics.
\<close>

definition replayBlocks ::
  "env \<Rightarrow> BeaconState \<Rightarrow> BeaconBlock list \<Rightarrow> slot \<Rightarrow> failure + BeaconState"
where
  "replayBlocks env state blks targetSlot =
     (case ReplayBlocks env state blks targetSlot of
        Inl e \<Rightarrow> Inl (Err (ReplayError e))
      | Inr state' \<Rightarrow> Inr state')"

definition HotStateExists :: "State \<Rightarrow> root \<Rightarrow> bool" where
  "HotStateExists s blockRoot = db_HasHotStateSummary (beaconDB s) blockRoot"

definition getLastValidBlock :: "State \<Rightarrow> slot \<Rightarrow> failure + root \<times> slot" where
  "getLastValidBlock s targetSlot =
     (case db_BlockRoots (beaconDB s) (split_slot (splitInfo s)) targetSlot of
        Inl e \<Rightarrow> Inl e
      | Inr rs \<Rightarrow>
          if rs = [] then Inl (Panic IndexOutOfRange)
          else
            (let lastRoot = rs ! (length rs - 1) in
             case db_Block (beaconDB s) lastRoot of
               Inl e \<Rightarrow> Inl e
             | Inr None \<Rightarrow> Inl (Panic NilDereference)
             | Inr (Some b) \<Rightarrow> Inr (lastRoot, blk_Slot b)))"

definition handleLastValidState :: "env \<Rightarrow> State \<Rightarrow> slot \<Rightarrow> (failure + root) \<times> State" where
  "handleLastValidState env s sl =
     (case db_BlockRoots (beaconDB s) (split_slot (splitInfo s)) sl of
        Inl e \<Rightarrow> (Inl e, s)
      | Inr rs \<Rightarrow>
          if rs = [] then (Inl (Panic IndexOutOfRange), s)
          else
            (let lastRoot = rs ! (length rs - 1);
                 r = fst (epochBoundaryRoot s (sl - SlotsPerEpoch env))
             in
             case db_State (beaconDB s) r of
               Inl e \<Rightarrow> (Inl e, s)
             | Inr None \<Rightarrow> (Inl (Panic NilDereference), s)
             | Inr (Some startState) \<Rightarrow>
                 (case LoadBlocks env s (st_Slot startState + 1) sl lastRoot of
                    Inl e \<Rightarrow> (Inl e, s)
                  | Inr blks \<Rightarrow>
                      (case replayBlocks env startState blks sl of
                         Inl e \<Rightarrow> (Inl e, s)
                       | Inr startState' \<Rightarrow>
                           (case db_SaveState (beaconDB s) startState' lastRoot of
                              Inl e \<Rightarrow> (Inl e, s)
                            | Inr db' \<Rightarrow> (Inr lastRoot, s\<lparr>beaconDB := db'\<rparr>))))))"

definition loadEpochBoundaryRoot ::
  "env \<Rightarrow> State \<Rightarrow> root \<Rightarrow> BeaconState \<Rightarrow> (failure + root) \<times> State"
where
  "loadEpochBoundaryRoot env s blockRoot state =
     (case CurrentEpoch env state of
        Inl e \<Rightarrow> (Inl e, s)
      | Inr epoch \<Rightarrow>
          (let epochBoundarySlot = epoch * SlotsPerEpoch env in
           case epochBoundarySlotToRoot s epochBoundarySlot of
             Some r \<Rightarrow> (Inr r, s)
           | None \<Rightarrow>
               if st_Slot state = epochBoundarySlot then (Inr blockRoot, s)
               else if epochBoundarySlot = 0 then
                 (case db_GenesisBlock (beaconDB s) of
                    Inl e \<Rightarrow> (Inl e, s)
                  | Inr b \<Rightarrow>
                      (case HashTreeRoot env b of
                         None \<Rightarrow> (Inl (Err HashError), s)
                       | Some r \<Rightarrow> (Inr r, setEpochBoundaryRoot s epochBoundarySlot r)))
               else
                 (case db_BlockRoots (beaconDB s) epochBoundarySlot epochBoundarySlot of
                    Inl e \<Rightarrow> (Inl e, s)
                  | Inr rs \<Rightarrow>
                      if length rs = 0 then
                        (case handleLastValidState env s epochBoundarySlot of
                           (Inl e, s') \<Rightarrow> (Inl e, s')
                         | (Inr r, s') \<Rightarrow> (Inr r, setEpochBoundaryRoot s' epochBoundarySlot r))
                      else if length rs = 1 then
                        (Inr (rs ! 0), setEpochBoundaryRoot s epochBoundarySlot (rs ! 0))
                      else (Inl (Err IncorrectBoundaryLength), s))))"

definition saveHotState ::
  "env \<Rightarrow> State \<Rightarrow> root \<Rightarrow> BeaconState \<Rightarrow> (failure + unit) \<times> State"
where
  "saveHotState env s blockRoot state =
     (case IsEpochStart env (st_Slot state) of
        Inl e \<Rightarrow> (Inl e, s)
      | Inr epochStart \<Rightarrow>
          (case (if epochStart
                 then (case db_SaveState (beaconDB s) state blockRoot of
                         Inl e \<Rightarrow> Inl e
                       | Inr db' \<Rightarrow>
                           Inr (s\<lparr>beaconDB := db', hotStateSaved := hotStateSaved s + 1\<rparr>))
                 else Inr s) of
             Inl e \<Rightarrow> (Inl e, s)
           | Inr s1 \<Rightarrow>
               (case loadEpochBoundaryRoot env s1 blockRoot state of
                  (Inl e, s2) \<Rightarrow> (Inl e, s2)
                | (Inr epochRoot, s2) \<Rightarrow>
                    (case db_SaveHotStateSummary (beaconDB s2)
                            \<lparr>sum_Slot = st_Slot state, sum_LatestRoot = blockRoot,
                             sum_BoundaryRoot = epochRoot\<rparr> of
                       Inl e \<Rightarrow> (Inl e, s2)
                     | Inr db' \<Rightarrow>
                         (Inr (), s2\<lparr>beaconDB := db',
                                     hotSummarySaved := hotSummarySaved s2 + 1\<rparr>)))))"

definition loadHotStateByRoot :: "env \<Rightarrow> State \<Rightarrow> root \<Rightarrow> failure + BeaconState" where
  "loadHotStateByRoot env s blockRoot =
     (case db_HotStateSummary (beaconDB s) blockRoot of
        Inl e \<Rightarrow> Inl e
      | Inr None \<Rightarrow> Inl (Err NilHotStateSummary)
      | Inr (Some summary) \<Rightarrow>
          (let targetSlot = sum_Slot summary in
           case db_State (beaconDB s) (sum_BoundaryRoot summary) of
             Inl e \<Rightarrow> Inl e
           | Inr None \<Rightarrow> Inl (Err NilBoundaryState)
           | Inr (Some boundaryState) \<Rightarrow>
               (case IsEpochStart env targetSlot of
                  Inl e \<Rightarrow> Inl e
                | Inr True \<Rightarrow> Inr boundaryState
                | Inr False \<Rightarrow>
                    (case LoadBlocks env s (st_Slot boundaryState + 1) targetSlot
                            (sum_LatestRoot summary) of
                       Inl e \<Rightarrow> Inl e
                     | Inr blks \<Rightarrow> replayBlocks env boundaryState blks targetSlot))))"

definition loadHotIntermediateStateWithSlot ::
  "env \<Rightarrow> State \<Rightarrow> slot \<Rightarrow> failure + BeaconState"
where
  "loadHotIntermediateStateWithSlot env s sl =
     (case SlotToEpoch env sl of
        Inl e \<Rightarrow> Inl e
      | Inr epoch \<Rightarrow>
          (let epochBoundarySlot = StartSlot env epoch in
           case epochBoundaryRoot s epochBoundarySlot of
             (_, False) \<Rightarrow> Inl (Err BoundaryRootNotCached)
           | (boundaryRoot, True) \<Rightarrow>
               (case db_State (beaconDB s) boundaryRoot of
                  Inl e \<Rightarrow> Inl e
                | Inr epochBoundaryState \<Rightarrow>
                    (case getLastValidBlock s sl of
                       Inl e \<Rightarrow> Inl e
                     | Inr (lastValidRoot, lastValidSlot) \<Rightarrow>
                         (case epochBoundaryState of
                            None \<Rightarrow> Inl (Panic NilDereference)
                          | Some boundaryState \<Rightarrow>
                              (case LoadBlocks env s (st_Slot boundaryState + 1) lastValidSlot
                                      lastValidRoot of
                                 Inl e \<Rightarrow> Inl e
                               | Inr replayBlks \<Rightarrow>
                                   replayBlocks env boundaryState replayBlks sl))))))"

section \<open>The test forest\<close>

text \<open>
  The fixtures of the package's tests, used to run the model: a hasher that is injective on
  the blocks below, a replayer that moves the state to the target slot and counts the
  blocks it was given, \<^verbatim>\<open>SlotsPerEpoch = 8\<close>, and the trees \<^verbatim>\<open>tree1\<close> and \<^verbatim>\<open>tree2\<close> of
  the tests, each block stored under its own root, the genesis root being \<^verbatim>\<open>'A'\<close>.
\<close>

definition test_root :: "BeaconBlock \<Rightarrow> root" where
  "test_root b = blk_ParentRoot b * 31 + ucast (blk_Slot b) * 7 + blk_StateRoot b + 1"

definition test_replay ::
  "BeaconState \<Rightarrow> BeaconBlock list \<Rightarrow> slot \<Rightarrow> replay_error + BeaconState"
where
  "test_replay state blks targetSlot =
     (if targetSlot < st_Slot state then Inl ReplayPastTarget
      else Inr (state\<lparr>st_Slot := targetSlot, st_Payload := st_Payload state + length blks\<rparr>))"

definition test_env :: env where
  "test_env =
     \<lparr>SlotsPerEpoch = 8, HashTreeRoot = (\<lambda>b. Some (test_root b)), ReplayBlocks = test_replay\<rparr>"

definition blk :: "slot \<Rightarrow> root \<Rightarrow> root \<Rightarrow> BeaconBlock" where
  "blk sl parent sr = \<lparr>blk_Slot = sl, blk_ParentRoot = parent, blk_StateRoot = sr\<rparr>"

definition t1_b0 :: BeaconBlock where "t1_b0 = blk 0 65 0"
definition t1_b1 :: BeaconBlock where "t1_b1 = blk 1 (test_root t1_b0) 0"
definition t1_b2 :: BeaconBlock where "t1_b2 = blk 2 (test_root t1_b1) 0"
definition t1_b3 :: BeaconBlock where "t1_b3 = blk 3 (test_root t1_b1) 0"
definition t1_b4 :: BeaconBlock where "t1_b4 = blk 4 (test_root t1_b2) 0"
definition t1_b5 :: BeaconBlock where "t1_b5 = blk 5 (test_root t1_b3) 0"
definition t1_b6 :: BeaconBlock where "t1_b6 = blk 6 (test_root t1_b4) 0"
definition t1_b7 :: BeaconBlock where "t1_b7 = blk 7 (test_root t1_b6) 0"
definition t1_b8 :: BeaconBlock where "t1_b8 = blk 8 (test_root t1_b6) 0"

definition t2_b0 :: BeaconBlock where "t2_b0 = blk 0 65 0"
definition t2_b1 :: BeaconBlock where "t2_b1 = blk 1 (test_root t2_b0) 0"
definition t2_b21 :: BeaconBlock where "t2_b21 = blk 2 (test_root t2_b1) 65"
definition t2_b22 :: BeaconBlock where "t2_b22 = blk 2 (test_root t2_b1) 66"
definition t2_b23 :: BeaconBlock where "t2_b23 = blk 2 (test_root t2_b1) 67"
definition t2_b24 :: BeaconBlock where "t2_b24 = blk 2 (test_root t2_b1) 68"
definition t2_b3 :: BeaconBlock where "t2_b3 = blk 3 (test_root t2_b24) 0"

definition save_blocks :: "BeaconBlock list \<Rightarrow> DB" where
  "save_blocks bs =
     \<lparr>blocks = map (\<lambda>b. (test_root b, b)) bs, states = Map.empty, summaries = Map.empty,
      genesis = hd bs, failing = (\<lambda>_. False)\<rparr>"

definition service :: "DB \<Rightarrow> State" where
  "service db =
     \<lparr>beaconDB = db, epochBoundarySlotToRoot = Map.empty,
      splitInfo = \<lparr>split_slot = 0, split_root = 0\<rparr>, hotStateSaved = 0, hotSummarySaved = 0\<rparr>"

definition tree1 :: State where
  "tree1 =
     service (save_blocks [t1_b0, t1_b1, t1_b2, t1_b3, t1_b4, t1_b5, t1_b6, t1_b7, t1_b8])"

definition tree2 :: State where
  "tree2 = service (save_blocks [t2_b0, t2_b1, t2_b21, t2_b22, t2_b23, t2_b24, t2_b3])"

definition tree1_split9 :: State where
  "tree1_split9 = tree1\<lparr>splitInfo := \<lparr>split_slot = 9, split_root = 0\<rparr>\<rparr>"

definition tree1_hot :: State where
  "tree1_hot =
     tree1\<lparr>beaconDB := (beaconDB tree1)
              \<lparr>states := [test_root t1_b0 \<mapsto> \<lparr>st_Slot = 0, st_Payload = 0\<rparr>],
               summaries :=
                 [test_root t1_b5 \<mapsto> \<lparr>sum_Slot = 5, sum_LatestRoot = test_root t1_b5,
                                       sum_BoundaryRoot = test_root t1_b0\<rparr>,
                  test_root t1_b3 \<mapsto> \<lparr>sum_Slot = 3, sum_LatestRoot = test_root t1_b3,
                                       sum_BoundaryRoot = 77\<rparr>]\<rparr>,
            epochBoundarySlotToRoot := [0 \<mapsto> test_root t1_b0]\<rparr>"

definition state8 :: BeaconState where
  "state8 = \<lparr>st_Slot = 8, st_Payload = 42\<rparr>"

definition state1 :: BeaconState where
  "state1 = \<lparr>st_Slot = 1, st_Payload = 7\<rparr>"

definition tree1_cached8 :: State where
  "tree1_cached8 = tree1\<lparr>epochBoundarySlotToRoot := [8 \<mapsto> 99]\<rparr>"

definition state5 :: BeaconState where
  "state5 = \<lparr>st_Slot = 5, st_Payload = 9\<rparr>"

subsection \<open>The chain ordering invariant\<close>

text \<open>
  The chain ordering invariant of the spec (section 3), as predicates on a reconstructed
  sequence: each successor hashes to the parent root of the element before it; slots
  strictly decrease along the sequence. \<open>parents_older\<close> is the well-formedness of a
  store of blocks that the second needs: a stored block that hashes to the parent root of
  another stored block has the smaller slot.
\<close>

fun linked :: "env \<Rightarrow> BeaconBlock list \<Rightarrow> bool" where
  "linked env (b # c # bs) = (HashTreeRoot env c = Some (blk_ParentRoot b) \<and> linked env (c # bs))"
| "linked env bs = True"

definition descending :: "BeaconBlock list \<Rightarrow> bool" where
  "descending bs = sorted_wrt (\<lambda>a b. blk_Slot b < blk_Slot a) bs"

definition in_slots :: "slot \<Rightarrow> slot \<Rightarrow> BeaconBlock \<Rightarrow> bool" where
  "in_slots startSlot endSlot b = (startSlot \<le> blk_Slot b \<and> blk_Slot b \<le> endSlot)"

definition parents_older :: "env \<Rightarrow> DB \<Rightarrow> bool" where
  "parents_older env db =
     list_all (\<lambda>child. list_all (\<lambda>parent.
         HashTreeRoot env (snd parent) = Some (blk_ParentRoot (snd child))
           \<longrightarrow> blk_Slot (snd parent) < blk_Slot (snd child))
       (blocks db)) (blocks db)"

text \<open>
  Further predicates of a store and of a sequence: every block is kept under its hash;
  a block is one that the store holds; the parent root of the last element designates no
  stored block at or above the start slot. \<open>slot_ge\<close> orders two roots by the slots of
  the blocks stored under them.
\<close>

definition keyed_by_hash :: "env \<Rightarrow> DB \<Rightarrow> bool" where
  "keyed_by_hash env db =
     list_all (\<lambda>rb. HashTreeRoot env (snd rb) = Some (fst rb)) (blocks db)"

definition stored :: "DB \<Rightarrow> BeaconBlock \<Rightarrow> bool" where
  "stored db b = (b \<in> set (map snd (blocks db)))"

definition reaches_bottom :: "DB \<Rightarrow> slot \<Rightarrow> BeaconBlock list \<Rightarrow> bool" where
  "reaches_bottom db startSlot bs =
     (case map_of (blocks db) (blk_ParentRoot (last bs)) of
        None \<Rightarrow> True
      | Some p \<Rightarrow> blk_Slot p < startSlot)"

definition slot_ge :: "DB \<Rightarrow> root \<Rightarrow> root \<Rightarrow> bool" where
  "slot_ge db c c' =
     (case (map_of (blocks db) c, map_of (blocks db) c') of
        (Some b, Some b') \<Rightarrow> blk_Slot b' \<le> blk_Slot b
      | _ \<Rightarrow> True)"

subsection \<open>A state under the zero root\<close>

definition tree1_zero :: State where
  "tree1_zero =
     tree1\<lparr>beaconDB := (beaconDB tree1)\<lparr>states := [0 \<mapsto> \<lparr>st_Slot = 5, st_Payload = 0\<rparr>]\<rparr>\<rparr>"

lemmas tree1_defs =
  test_root_def test_replay_def test_env_def blk_def save_blocks_def service_def
  t1_b0_def t1_b1_def t1_b2_def t1_b3_def t1_b4_def t1_b5_def t1_b6_def t1_b7_def t1_b8_def
  tree1_def

lemmas tree2_defs =
  test_root_def test_replay_def test_env_def blk_def save_blocks_def service_def
  t2_b0_def t2_b1_def t2_b21_def t2_b22_def t2_b23_def t2_b24_def t2_b3_def
  tree2_def

lemmas store_defs =
  db_HasHotStateSummary_def db_HotStateSummary_def db_SaveHotStateSummary_def db_State_def
  db_SaveState_def db_GenesisBlock_def db_Block_def db_BlockRoots_def in_window_def

lemmas epoch_defs = SlotToEpoch_def StartSlot_def CurrentEpoch_def IsEpochStart_def

lemmas word_order_nat = word_le_nat_alt word_less_nat_alt

section \<open>The existence check\<close>

text \<open>
  C10. \<^verbatim>\<open>HotStateExists\<close> is exactly the store's summary check: it returns what
  \<^verbatim>\<open>HasHotStateSummary\<close> returns, which is whether a summary is stored under the root. It
  asks nothing else: whatever blocks, states, genesis block, faults, boundary map and split
  point the service holds, the answer is the same, so the boundary state and the blocks
  needed to regenerate the state are not looked at.
\<close>

theorem HotStateExists_is_summary_check:
  "HotStateExists s blockRoot = db_HasHotStateSummary (beaconDB s) blockRoot
   \<and> HotStateExists s blockRoot = (blockRoot \<in> dom (summaries (beaconDB s)))
   \<and> HotStateExists
        (s\<lparr>beaconDB := (beaconDB s)\<lparr>blocks := bs, states := sts, genesis := g, failing := f\<rparr>,
           epochBoundarySlotToRoot := cache, splitInfo := split\<rparr>) blockRoot
       = HotStateExists s blockRoot"
  by (auto simp: HotStateExists_def db_HasHotStateSummary_def)

text \<open>
  On tree 1 a summary is stored for B3 whose boundary root has no state: the check says
  yes, and loading the state fails.
\<close>

theorem HotStateExists_is_summary_check_witness:
  "HotStateExists tree1_hot (test_root t1_b3)
   \<and> db_HasHotStateSummary (beaconDB tree1_hot) (test_root t1_b3)
   \<and> states (beaconDB tree1_hot) 77 = None
   \<and> loadHotStateByRoot test_env tree1_hot (test_root t1_b3) = Inl (Err NilBoundaryState)
   \<and> \<not> HotStateExists tree1_hot (test_root t1_b4)"
proof -
  have a: "db_HasHotStateSummary (beaconDB tree1_hot) (test_root t1_b3)"
    by (simp add: tree1_hot_def tree1_defs store_defs)
  have b: "\<not> db_HasHotStateSummary (beaconDB tree1_hot) (test_root t1_b4)"
    by (simp add: tree1_hot_def tree1_defs store_defs)
  have c: "states (beaconDB tree1_hot) 77 = None"
    by (simp add: tree1_hot_def tree1_defs)
  have d: "loadHotStateByRoot test_env tree1_hot (test_root t1_b3) = Inl (Err NilBoundaryState)"
    by (simp add: loadHotStateByRoot_def tree1_hot_def tree1_defs store_defs)
  from a b c d
    HotStateExists_is_summary_check [where s = tree1_hot and blockRoot = "test_root t1_b3"]
    HotStateExists_is_summary_check [where s = tree1_hot and blockRoot = "test_root t1_b4"]
  show ?thesis by simp
qed

section \<open>The failures of the store, the walk and the replayer\<close>

lemma db_Block_failure: "db_Block db r = Inl e \<Longrightarrow> e = Err StoreError"
  by (simp add: db_Block_def split: if_splits)

lemma db_State_failure: "db_State db r = Inl e \<Longrightarrow> e = Err StoreError"
  by (simp add: db_State_def split: if_splits)

lemma db_BlockRoots_failure: "db_BlockRoots db a b = Inl e \<Longrightarrow> e = Err StoreError"
  by (simp add: db_BlockRoots_def split: if_splits)

lemma db_SaveState_failure: "db_SaveState db st r = Inl e \<Longrightarrow> e = Err StoreError"
  by (simp add: db_SaveState_def split: if_splits)

lemma db_HotStateSummary_failure: "db_HotStateSummary db r = Inl e \<Longrightarrow> e = Err StoreError"
  by (simp add: db_HotStateSummary_def split: if_splits)

lemma walk_failure:
  "walk env db startSlot cursor cs out = Inl e \<Longrightarrow> e = Err StoreError \<or> e = Err BlockNotFound"
proof (induction cs arbitrary: cursor out)
  case Nil
  then show ?case by simp
next
  case (Cons c cs)
  then show ?case
    by (auto split: sum.splits option.splits if_splits dest: db_Block_failure)
qed

lemma LoadBlocks_failure:
  "LoadBlocks env s startSlot endSlot r = Inl e \<Longrightarrow>
   e = Err StoreError \<or> e = Err BlockNotFound \<or> e = Err ChainMismatch"
  by (auto simp: LoadBlocks_def split: sum.splits option.splits if_splits
      dest: db_Block_failure db_BlockRoots_failure walk_failure)

lemma replayBlocks_failure:
  "replayBlocks env state blks t = Inl e \<Longrightarrow> \<exists>x. e = Err (ReplayError x)"
  by (auto simp: replayBlocks_def split: sum.splits)

lemma IsEpochStart_failure: "IsEpochStart env sl = Inl e \<Longrightarrow> e = Panic DivideByZero"
  by (simp add: IsEpochStart_def split: if_splits)

section \<open>The backward scans\<close>

text \<open>
  C9. \<^verbatim>\<open>handleLastValidState\<close> and \<^verbatim>\<open>getLastValidBlock\<close> read \<^verbatim>\<open>rs[len(rs)-1]\<close> with no
  emptiness check. Each of them panics with an index out of range exactly when the range
  query for the window from the split slot to the given slot returns the empty list, so
  they are total only where a block root is stored in that window; on the empty list the
  result is the panic and not an error value, and nothing has been written.
\<close>

theorem last_index_panics_on_empty_range:
  "(fst (handleLastValidState env s sl) = Inl (Panic IndexOutOfRange))
     = (db_BlockRoots (beaconDB s) (split_slot (splitInfo s)) sl = Inr [])
   \<and> (getLastValidBlock s sl = Inl (Panic IndexOutOfRange))
     = (db_BlockRoots (beaconDB s) (split_slot (splitInfo s)) sl = Inr [])
   \<and> (db_BlockRoots (beaconDB s) (split_slot (splitInfo s)) sl = Inr [] \<longrightarrow>
        handleLastValidState env s sl = (Inl (Panic IndexOutOfRange), s))"
proof (intro conjI)
  show "(fst (handleLastValidState env s sl) = Inl (Panic IndexOutOfRange))
     = (db_BlockRoots (beaconDB s) (split_slot (splitInfo s)) sl = Inr [])"
    by (auto simp: handleLastValidState_def Let_def split: sum.splits option.splits if_splits
        dest: db_BlockRoots_failure db_State_failure LoadBlocks_failure replayBlocks_failure
          db_SaveState_failure)
  show "(getLastValidBlock s sl = Inl (Panic IndexOutOfRange))
     = (db_BlockRoots (beaconDB s) (split_slot (splitInfo s)) sl = Inr [])"
    by (auto simp: getLastValidBlock_def Let_def split: sum.splits option.splits if_splits
        dest: db_BlockRoots_failure db_Block_failure)
  show "db_BlockRoots (beaconDB s) (split_slot (splitInfo s)) sl = Inr [] \<longrightarrow>
        handleLastValidState env s sl = (Inl (Panic IndexOutOfRange), s)"
    by (simp add: handleLastValidState_def)
qed

text \<open>
  With the split at slot 9 no block of tree 1 lies in the window up to slot 16 and both
  scans panic; with the split at slot 0 the last block root is that of B8.
\<close>

theorem last_index_panics_on_empty_range_witness:
  "db_BlockRoots (beaconDB tree1_split9) (split_slot (splitInfo tree1_split9)) 16 = Inr []
   \<and> handleLastValidState test_env tree1_split9 16 = (Inl (Panic IndexOutOfRange), tree1_split9)
   \<and> getLastValidBlock tree1_split9 16 = Inl (Panic IndexOutOfRange)
   \<and> getLastValidBlock tree1 16 = Inr (test_root t1_b8, 8)"
proof -
  have e: "db_BlockRoots (beaconDB tree1_split9) (split_slot (splitInfo tree1_split9)) 16 = Inr []"
    by (simp add: tree1_split9_def tree1_defs store_defs word_order_nat)
  have g: "getLastValidBlock tree1 16 = Inr (test_root t1_b8, 8)"
    by (simp add: getLastValidBlock_def tree1_defs store_defs word_order_nat)
  from e g last_index_panics_on_empty_range [of test_env tree1_split9 16]
  show ?thesis by simp
qed

section \<open>Loading a hot state by root\<close>

text \<open>
  C8. \<^verbatim>\<open>loadHotStateByRoot\<close> fails with \<^verbatim>\<open>nil hot state summary\<close> (the spec's
  \<open>NotFound\<close>) exactly when the store's summary lookup for the root finds nothing, and with
  \<^verbatim>\<open>boundary state can't be nil\<close> (the spec's \<open>MissingBoundary\<close>) exactly when the lookup
  finds a summary and the state lookup under the summary's boundary root finds nothing. A
  failure is a left injection, so no state is returned with either.
\<close>

theorem loadHotStateByRoot_lookup_errors:
  "(loadHotStateByRoot env s blockRoot = Inl (Err NilHotStateSummary))
     = (db_HotStateSummary (beaconDB s) blockRoot = Inr None)
   \<and> (loadHotStateByRoot env s blockRoot = Inl (Err NilBoundaryState))
     = (\<exists>summary. db_HotStateSummary (beaconDB s) blockRoot = Inr (Some summary)
          \<and> db_State (beaconDB s) (sum_BoundaryRoot summary) = Inr None)"
proof (intro conjI)
  show "(loadHotStateByRoot env s blockRoot = Inl (Err NilHotStateSummary))
     = (db_HotStateSummary (beaconDB s) blockRoot = Inr None)"
    by (auto simp: loadHotStateByRoot_def Let_def
        split: sum.splits option.splits bool.splits
        dest: db_HotStateSummary_failure db_State_failure IsEpochStart_failure
          LoadBlocks_failure replayBlocks_failure)
  show "(loadHotStateByRoot env s blockRoot = Inl (Err NilBoundaryState))
     = (\<exists>summary. db_HotStateSummary (beaconDB s) blockRoot = Inr (Some summary)
          \<and> db_State (beaconDB s) (sum_BoundaryRoot summary) = Inr None)"
    by (auto simp: loadHotStateByRoot_def Let_def
        split: sum.splits option.splits bool.splits
        dest: db_HotStateSummary_failure db_State_failure IsEpochStart_failure
          LoadBlocks_failure replayBlocks_failure)
qed

text \<open>
  On tree 1 with the genesis state stored: no summary for B4; a summary for B3 whose
  boundary root has no state; a summary for B5 that loads by replaying B1, B3 and B5.
\<close>

theorem loadHotStateByRoot_lookup_errors_witness:
  "loadHotStateByRoot test_env tree1_hot (test_root t1_b4) = Inl (Err NilHotStateSummary)
   \<and> message NilHotStateSummary = Some ''nil hot state summary''
   \<and> loadHotStateByRoot test_env tree1_hot (test_root t1_b3) = Inl (Err NilBoundaryState)
   \<and> message NilBoundaryState = Some ''boundary state can't be nil''
   \<and> loadHotStateByRoot test_env tree1_hot (test_root t1_b5)
       = Inr \<lparr>st_Slot = 5, st_Payload = 3\<rparr>"
proof -
  have a: "db_HotStateSummary (beaconDB tree1_hot) (test_root t1_b4) = Inr None"
    by (simp add: tree1_hot_def tree1_defs store_defs)
  have b: "db_HotStateSummary (beaconDB tree1_hot) (test_root t1_b3)
             = Inr (Some \<lparr>sum_Slot = 3, sum_LatestRoot = test_root t1_b3,
                           sum_BoundaryRoot = 77\<rparr>)"
    by (simp add: tree1_hot_def tree1_defs store_defs)
  have c: "db_State (beaconDB tree1_hot) 77 = Inr None"
    by (simp add: tree1_hot_def tree1_defs store_defs)
  have d: "loadHotStateByRoot test_env tree1_hot (test_root t1_b5)
             = Inr \<lparr>st_Slot = 5, st_Payload = 3\<rparr>"
    by (simp add: loadHotStateByRoot_def LoadBlocks_def replayBlocks_def tree1_hot_def
        tree1_defs store_defs epoch_defs word_order_nat)
  from a b c have
    "\<exists>summary. db_HotStateSummary (beaconDB tree1_hot) (test_root t1_b3) = Inr (Some summary)
          \<and> db_State (beaconDB tree1_hot) (sum_BoundaryRoot summary) = Inr None"
    by simp
  with a d loadHotStateByRoot_lookup_errors [of test_env tree1_hot "test_root t1_b4"]
    loadHotStateByRoot_lookup_errors [of test_env tree1_hot "test_root t1_b3"]
  show ?thesis by simp
qed

section \<open>What the writers leave alone\<close>

lemma handleLastValidState_frame:
  assumes "handleLastValidState env s sl = (res, s')"
  shows "blocks (beaconDB s') = blocks (beaconDB s)
       \<and> summaries (beaconDB s') = summaries (beaconDB s)
       \<and> genesis (beaconDB s') = genesis (beaconDB s)
       \<and> failing (beaconDB s') = failing (beaconDB s)
       \<and> epochBoundarySlotToRoot s' = epochBoundarySlotToRoot s
       \<and> splitInfo s' = splitInfo s
       \<and> hotStateSaved s' = hotStateSaved s
       \<and> hotSummarySaved s' = hotSummarySaved s"
  using assms
  by (auto simp: handleLastValidState_def Let_def db_SaveState_def
      split: sum.splits option.splits if_splits)

lemma loadEpochBoundaryRoot_frame:
  assumes "loadEpochBoundaryRoot env s blockRoot state = (res, s')"
  shows "blocks (beaconDB s') = blocks (beaconDB s)
       \<and> summaries (beaconDB s') = summaries (beaconDB s)
       \<and> genesis (beaconDB s') = genesis (beaconDB s)
       \<and> failing (beaconDB s') = failing (beaconDB s)
       \<and> splitInfo s' = splitInfo s
       \<and> hotStateSaved s' = hotStateSaved s
       \<and> hotSummarySaved s' = hotSummarySaved s"
  using assms
  by (auto simp: loadEpochBoundaryRoot_def Let_def setEpochBoundaryRoot_def
      split: sum.splits option.splits if_splits prod.splits
      dest: handleLastValidState_frame)

lemma word_boundary_slot:
  fixes x n :: slot
  assumes "x mod n = 0"
  shows "x div n * n = x"
proof -
  have "x div n * n + x mod n = x" by (rule div_mult_mod_eq)
  with assms show ?thesis by simp
qed

lemma loadEpochBoundaryRoot_on_boundary:
  assumes "SlotsPerEpoch env \<noteq> 0" and "st_Slot state mod SlotsPerEpoch env = 0"
  shows "loadEpochBoundaryRoot env s blockRoot state
           = (Inr (case epochBoundarySlotToRoot s (st_Slot state) of
                     Some r \<Rightarrow> r | None \<Rightarrow> blockRoot), s)"
  using assms word_boundary_slot [OF assms(2)]
  by (simp add: loadEpochBoundaryRoot_def CurrentEpoch_def SlotToEpoch_def Let_def
      split: option.splits)
lemma saveHotState_steps:
  assumes "saveHotState env s blockRoot state = (Inr (), s')"
  obtains epochRoot s1 s2 where
    "SlotsPerEpoch env \<noteq> 0"
    "s1 = (if st_Slot state mod SlotsPerEpoch env = 0
           then s\<lparr>beaconDB := (beaconDB s)\<lparr>states := (states (beaconDB s))(blockRoot \<mapsto> state)\<rparr>,
                  hotStateSaved := hotStateSaved s + 1\<rparr>
           else s)"
    "loadEpochBoundaryRoot env s1 blockRoot state = (Inr epochRoot, s2)"
    "s' = s2\<lparr>beaconDB := (beaconDB s2)
                 \<lparr>summaries := (summaries (beaconDB s2))
                    (blockRoot \<mapsto> \<lparr>sum_Slot = st_Slot state, sum_LatestRoot = blockRoot,
                                    sum_BoundaryRoot = epochRoot\<rparr>)\<rparr>,
              hotSummarySaved := hotSummarySaved s2 + 1\<rparr>"
proof -
  from assms have spe: "SlotsPerEpoch env \<noteq> 0"
    by (auto simp: saveHotState_def IsEpochStart_def split: if_splits)
  define s1 where
    "s1 = (if st_Slot state mod SlotsPerEpoch env = 0
           then s\<lparr>beaconDB := (beaconDB s)\<lparr>states := (states (beaconDB s))(blockRoot \<mapsto> state)\<rparr>,
                  hotStateSaved := hotStateSaved s + 1\<rparr>
           else s)"
  from assms spe have
    rest: "(case loadEpochBoundaryRoot env s1 blockRoot state of
             (Inl e, s2) \<Rightarrow> (Inl e, s2)
           | (Inr epochRoot, s2) \<Rightarrow>
               (case db_SaveHotStateSummary (beaconDB s2)
                       \<lparr>sum_Slot = st_Slot state, sum_LatestRoot = blockRoot,
                        sum_BoundaryRoot = epochRoot\<rparr> of
                  Inl e \<Rightarrow> (Inl e, s2)
                | Inr db' \<Rightarrow>
                    (Inr (), s2\<lparr>beaconDB := db',
                                hotSummarySaved := hotSummarySaved s2 + 1\<rparr>))) = (Inr (), s')"
    by (auto simp: saveHotState_def IsEpochStart_def s1_def db_SaveState_def
        split: if_splits sum.splits)
  obtain res s2 where l: "loadEpochBoundaryRoot env s1 blockRoot state = (res, s2)"
    by (cases "loadEpochBoundaryRoot env s1 blockRoot state")
  from rest l obtain epochRoot where r: "res = Inr epochRoot"
    by (cases res) auto
  from rest l r have
    "s' = s2\<lparr>beaconDB := (beaconDB s2)
                 \<lparr>summaries := (summaries (beaconDB s2))
                    (blockRoot \<mapsto> \<lparr>sum_Slot = st_Slot state, sum_LatestRoot = blockRoot,
                                    sum_BoundaryRoot = epochRoot\<rparr>)\<rparr>,
              hotSummarySaved := hotSummarySaved s2 + 1\<rparr>"
    by (auto simp: db_SaveHotStateSummary_def split: if_splits sum.splits)
  with that spe s1_def l r show thesis by blast
qed
section \<open>Saving a hot state\<close>

text \<open>
  C7. Every successful \<^verbatim>\<open>saveHotState\<close> persists a summary under the block root, with the
  state's slot, the block root as latest root, and the boundary root that
  \<^verbatim>\<open>loadEpochBoundaryRoot\<close> resolved in that call; the summary counter goes up by one.
  This holds on an epoch start as well, where the full state has been persisted under the
  same root before (and the state counter has gone up by one).
\<close>

theorem saveHotState_writes_summary:
  assumes "saveHotState env s blockRoot state = (Inr (), s')"
  shows "\<exists>epochRoot s1 s2.
           s1 = (if st_Slot state mod SlotsPerEpoch env = 0
                 then s\<lparr>beaconDB := (beaconDB s)
                            \<lparr>states := (states (beaconDB s))(blockRoot \<mapsto> state)\<rparr>,
                        hotStateSaved := hotStateSaved s + 1\<rparr>
                 else s)
         \<and> loadEpochBoundaryRoot env s1 blockRoot state = (Inr epochRoot, s2)
         \<and> summaries (beaconDB s') blockRoot
             = Some \<lparr>sum_Slot = st_Slot state, sum_LatestRoot = blockRoot,
                     sum_BoundaryRoot = epochRoot\<rparr>
         \<and> HotStateExists s' blockRoot
         \<and> hotSummarySaved s' = hotSummarySaved s + 1
         \<and> (st_Slot state mod SlotsPerEpoch env = 0 \<longrightarrow>
               states (beaconDB s') blockRoot = Some state
               \<and> hotStateSaved s' = hotStateSaved s + 1)"
proof -
  from saveHotState_steps [OF assms] obtain epochRoot s1 s2 where
    spe: "SlotsPerEpoch env \<noteq> 0"
    and s1: "s1 = (if st_Slot state mod SlotsPerEpoch env = 0
                 then s\<lparr>beaconDB := (beaconDB s)
                            \<lparr>states := (states (beaconDB s))(blockRoot \<mapsto> state)\<rparr>,
                        hotStateSaved := hotStateSaved s + 1\<rparr>
                 else s)"
    and l: "loadEpochBoundaryRoot env s1 blockRoot state = (Inr epochRoot, s2)"
    and s': "s' = s2\<lparr>beaconDB := (beaconDB s2)
                 \<lparr>summaries := (summaries (beaconDB s2))
                    (blockRoot \<mapsto> \<lparr>sum_Slot = st_Slot state, sum_LatestRoot = blockRoot,
                                    sum_BoundaryRoot = epochRoot\<rparr>)\<rparr>,
              hotSummarySaved := hotSummarySaved s2 + 1\<rparr>"
    by blast
  have summary: "summaries (beaconDB s') blockRoot
             = Some \<lparr>sum_Slot = st_Slot state, sum_LatestRoot = blockRoot,
                     sum_BoundaryRoot = epochRoot\<rparr>"
    by (simp add: s')
  then have ex: "HotStateExists s' blockRoot"
    by (simp add: HotStateExists_def db_HasHotStateSummary_def)
  from loadEpochBoundaryRoot_frame [OF l] have "hotSummarySaved s2 = hotSummarySaved s1"
    by simp
  then have count: "hotSummarySaved s' = hotSummarySaved s + 1"
    by (simp add: s' s1)
  have full: "states (beaconDB s') blockRoot = Some state \<and> hotStateSaved s' = hotStateSaved s + 1"
    if b: "st_Slot state mod SlotsPerEpoch env = 0"
  proof -
    from loadEpochBoundaryRoot_on_boundary [OF spe b, of s1 blockRoot] l have "s2 = s1"
      by simp
    with b show ?thesis by (simp add: s' s1)
  qed
  from s1 l summary ex count full show ?thesis by blast
qed

text \<open>
  Saving the state of B8 (slot 8, an epoch start) on tree 1 writes the state and a summary
  whose boundary root is B8's own root; saving a state of slot 1 writes only a summary,
  whose boundary root is the genesis root.
\<close>

theorem saveHotState_writes_summary_witness:
  "fst (saveHotState test_env tree1 (test_root t1_b8) state8) = Inr ()
   \<and> summaries (beaconDB (snd (saveHotState test_env tree1 (test_root t1_b8) state8)))
        (test_root t1_b8)
       = Some \<lparr>sum_Slot = 8, sum_LatestRoot = test_root t1_b8,
               sum_BoundaryRoot = test_root t1_b8\<rparr>
   \<and> states (beaconDB (snd (saveHotState test_env tree1 (test_root t1_b8) state8)))
        (test_root t1_b8) = Some state8
   \<and> hotSummarySaved (snd (saveHotState test_env tree1 (test_root t1_b8) state8)) = 1
   \<and> fst (saveHotState test_env tree1 (test_root t1_b1) state1) = Inr ()
   \<and> summaries (beaconDB (snd (saveHotState test_env tree1 (test_root t1_b1) state1)))
        (test_root t1_b1)
       = Some \<lparr>sum_Slot = 1, sum_LatestRoot = test_root t1_b1,
               sum_BoundaryRoot = test_root t1_b0\<rparr>
   \<and> states (beaconDB (snd (saveHotState test_env tree1 (test_root t1_b1) state1)))
        (test_root t1_b1) = None"
proof -
  let ?s8 = "snd (saveHotState test_env tree1 (test_root t1_b8) state8)"
  have ok8: "fst (saveHotState test_env tree1 (test_root t1_b8) state8) = Inr ()"
    by (simp add: saveHotState_def loadEpochBoundaryRoot_def state8_def tree1_defs
        store_defs epoch_defs)
  then have h: "saveHotState test_env tree1 (test_root t1_b8) state8 = (Inr (), ?s8)"
    by (metis prod.collapse)
  have tree1_counter: "hotSummarySaved tree1 = 0"
    by (simp add: tree1_defs)
  have boundary: "st_Slot state8 mod SlotsPerEpoch test_env = 0"
    by (simp add: state8_def test_env_def)
  from saveHotState_writes_summary [OF h] boundary tree1_counter
  have written: "states (beaconDB ?s8) (test_root t1_b8) = Some state8
      \<and> hotSummarySaved ?s8 = 1"
    by auto
  have sum8: "summaries (beaconDB ?s8) (test_root t1_b8)
       = Some \<lparr>sum_Slot = 8, sum_LatestRoot = test_root t1_b8,
               sum_BoundaryRoot = test_root t1_b8\<rparr>"
    by (simp add: saveHotState_def loadEpochBoundaryRoot_def state8_def tree1_defs
        store_defs epoch_defs)
  have one: "fst (saveHotState test_env tree1 (test_root t1_b1) state1) = Inr ()
   \<and> summaries (beaconDB (snd (saveHotState test_env tree1 (test_root t1_b1) state1)))
        (test_root t1_b1)
       = Some \<lparr>sum_Slot = 1, sum_LatestRoot = test_root t1_b1,
               sum_BoundaryRoot = test_root t1_b0\<rparr>
   \<and> states (beaconDB (snd (saveHotState test_env tree1 (test_root t1_b1) state1)))
        (test_root t1_b1) = None"
    by (simp add: saveHotState_def loadEpochBoundaryRoot_def setEpochBoundaryRoot_def
        state1_def tree1_defs store_defs epoch_defs)
  from ok8 written sum8 one show ?thesis by simp
qed

section \<open>The boundary case of the resolver\<close>

lemma word_on_boundary:
  fixes x n :: slot
  assumes "x = x div n * n"
  shows "x mod n = 0"
proof -
  have "x div n * n + x mod n = x" by (rule div_mult_mod_eq)
  with assms have "x + x mod n = x" by simp
  then show ?thesis by simp
qed

lemma saveHotState_on_boundary_cache:
  assumes spe: "SlotsPerEpoch env \<noteq> 0" and b: "st_Slot state mod SlotsPerEpoch env = 0"
  shows "epochBoundarySlotToRoot (snd (saveHotState env s blockRoot state))
           = epochBoundarySlotToRoot s"
    and "\<not> failing (beaconDB s) (Call_SaveState blockRoot) \<Longrightarrow>
         states (beaconDB (snd (saveHotState env s blockRoot state))) blockRoot = Some state"
  using spe b
  by (auto simp: saveHotState_def IsEpochStart_def db_SaveState_def db_SaveHotStateSummary_def
      loadEpochBoundaryRoot_on_boundary [OF spe b] split: sum.splits)

text \<open>
  C4, as the code has it. When the state's slot is its epoch's boundary slot,
  \<^verbatim>\<open>loadEpochBoundaryRoot\<close> returns the root cached for that slot if there is one and the
  block root otherwise, and leaves the service as it was: nothing is put into the boundary
  map. \<^verbatim>\<open>saveHotState\<close> at such a slot persists the state under the block root (unless the
  store refuses the write) and leaves the boundary map as it was, too.
\<close>

theorem loadEpochBoundaryRoot_boundary_case:
  assumes "CurrentEpoch env state = Inr epoch"
      and "st_Slot state = epoch * SlotsPerEpoch env"
  shows "loadEpochBoundaryRoot env s blockRoot state
           = (Inr (case epochBoundarySlotToRoot s (st_Slot state) of
                     Some r \<Rightarrow> r | None \<Rightarrow> blockRoot), s)
       \<and> epochBoundarySlotToRoot (snd (saveHotState env s blockRoot state))
           = epochBoundarySlotToRoot s
       \<and> (\<not> failing (beaconDB s) (Call_SaveState blockRoot) \<longrightarrow>
            states (beaconDB (snd (saveHotState env s blockRoot state))) blockRoot
              = Some state)"
proof -
  from assms(1) have spe: "SlotsPerEpoch env \<noteq> 0"
    and epoch: "epoch = st_Slot state div SlotsPerEpoch env"
    by (auto simp: CurrentEpoch_def SlotToEpoch_def split: if_splits)
  from assms(2) epoch have b: "st_Slot state mod SlotsPerEpoch env = 0"
    by (simp add: word_on_boundary)
  from loadEpochBoundaryRoot_on_boundary [OF spe b] saveHotState_on_boundary_cache [OF spe b]
  show ?thesis by simp
qed

text \<open>
  The state of B8 has slot 8, the boundary slot of epoch 1. With an empty boundary map the
  resolver returns B8's root and the map stays empty; with another root cached for slot 8
  it returns that root.
\<close>

theorem loadEpochBoundaryRoot_boundary_case_witness:
  "CurrentEpoch test_env state8 = Inr 1
   \<and> st_Slot state8 = 1 * SlotsPerEpoch test_env
   \<and> loadEpochBoundaryRoot test_env tree1 (test_root t1_b8) state8
       = (Inr (test_root t1_b8), tree1)
   \<and> loadEpochBoundaryRoot test_env tree1_cached8 (test_root t1_b8) state8
       = (Inr 99, tree1_cached8)
   \<and> epochBoundarySlotToRoot (snd (saveHotState test_env tree1 (test_root t1_b8) state8))
       = epochBoundarySlotToRoot tree1
   \<and> states (beaconDB (snd (saveHotState test_env tree1 (test_root t1_b8) state8)))
        (test_root t1_b8) = Some state8"
proof -
  have e: "CurrentEpoch test_env state8 = Inr 1"
    by (simp add: epoch_defs state8_def test_env_def)
  have b: "st_Slot state8 = 1 * SlotsPerEpoch test_env"
    by (simp add: state8_def test_env_def)
  have miss: "epochBoundarySlotToRoot tree1 (st_Slot state8) = None"
    by (simp add: tree1_defs)
  have hit: "epochBoundarySlotToRoot tree1_cached8 (st_Slot state8) = Some 99"
    by (simp add: tree1_cached8_def state8_def)
  have w: "\<not> failing (beaconDB tree1) (Call_SaveState (test_root t1_b8))"
    by (simp add: tree1_defs)
  from e b miss hit w
    loadEpochBoundaryRoot_boundary_case [OF e b, of tree1 "test_root t1_b8"]
    loadEpochBoundaryRoot_boundary_case [OF e b, of tree1_cached8 "test_root t1_b8"]
  show ?thesis by simp
qed

text \<open>
  The claim as stated fails: after the boundary case, and after \<^verbatim>\<open>saveHotState\<close> at an
  epoch start, the boundary map has no entry for the slot; and on a cache hit the root
  returned is the cached one, not the block root.
\<close>

theorem boundary_case_caches_counterexample:
  "fst (loadEpochBoundaryRoot test_env tree1 (test_root t1_b8) state8) = Inr (test_root t1_b8)
   \<and> epochBoundarySlotToRoot
        (snd (loadEpochBoundaryRoot test_env tree1 (test_root t1_b8) state8)) 8 = None
   \<and> fst (saveHotState test_env tree1 (test_root t1_b8) state8) = Inr ()
   \<and> epochBoundarySlotToRoot
        (snd (saveHotState test_env tree1 (test_root t1_b8) state8)) 8 = None
   \<and> fst (loadEpochBoundaryRoot test_env tree1_cached8 (test_root t1_b8) state8) = Inr 99
   \<and> test_root t1_b8 \<noteq> 99"
  by (simp add: saveHotState_def loadEpochBoundaryRoot_def state8_def tree1_cached8_def
      tree1_defs store_defs epoch_defs)

section \<open>Reads and the boundary map\<close>

lemma LoadBlocks_cache_independent:
  "LoadBlocks env (s\<lparr>epochBoundarySlotToRoot := cache\<rparr>) startSlot endSlot r
     = LoadBlocks env s startSlot endSlot r"
  by (simp add: LoadBlocks_def split: sum.splits option.splits)

text \<open>
  C3, as the code has it. The reads by root do not consult the boundary map:
  \<^verbatim>\<open>loadHotStateByRoot\<close>, \<^verbatim>\<open>HotStateExists\<close> and the scan \<^verbatim>\<open>getLastValidBlock\<close> return the
  same result whatever the map holds, so dropping it is transparent for them. The read by
  slot does consult it: \<^verbatim>\<open>loadHotIntermediateStateWithSlot\<close> fails with
  \<^verbatim>\<open>epoch boundary root is not cached\<close> whenever the map has no entry for the start slot of
  the slot's epoch, in particular after the map has been cleared.
\<close>

theorem cache_drop_transparent_by_root_only:
  "loadHotStateByRoot env (s\<lparr>epochBoundarySlotToRoot := cache\<rparr>) blockRoot
     = loadHotStateByRoot env s blockRoot
   \<and> HotStateExists (s\<lparr>epochBoundarySlotToRoot := cache\<rparr>) blockRoot
       = HotStateExists s blockRoot
   \<and> getLastValidBlock (s\<lparr>epochBoundarySlotToRoot := cache\<rparr>) sl = getLastValidBlock s sl
   \<and> (SlotsPerEpoch env \<noteq> 0
        \<and> epochBoundarySlotToRoot s (StartSlot env (sl div SlotsPerEpoch env)) = None \<longrightarrow>
        loadHotIntermediateStateWithSlot env s sl = Inl (Err BoundaryRootNotCached))
   \<and> (SlotsPerEpoch env \<noteq> 0 \<longrightarrow>
        loadHotIntermediateStateWithSlot env (s\<lparr>epochBoundarySlotToRoot := Map.empty\<rparr>) sl
          = Inl (Err BoundaryRootNotCached))"
proof (intro conjI)
  show "loadHotStateByRoot env (s\<lparr>epochBoundarySlotToRoot := cache\<rparr>) blockRoot
     = loadHotStateByRoot env s blockRoot"
    by (simp add: loadHotStateByRoot_def LoadBlocks_cache_independent Let_def
        split: sum.splits option.splits bool.splits)
  show "HotStateExists (s\<lparr>epochBoundarySlotToRoot := cache\<rparr>) blockRoot
       = HotStateExists s blockRoot"
    by (simp add: HotStateExists_def)
  show "getLastValidBlock (s\<lparr>epochBoundarySlotToRoot := cache\<rparr>) sl = getLastValidBlock s sl"
    by (simp add: getLastValidBlock_def Let_def split: sum.splits option.splits)
  show "SlotsPerEpoch env \<noteq> 0
        \<and> epochBoundarySlotToRoot s (StartSlot env (sl div SlotsPerEpoch env)) = None \<longrightarrow>
        loadHotIntermediateStateWithSlot env s sl = Inl (Err BoundaryRootNotCached)"
    by (simp add: loadHotIntermediateStateWithSlot_def SlotToEpoch_def epochBoundaryRoot_def)
  show "SlotsPerEpoch env \<noteq> 0 \<longrightarrow>
        loadHotIntermediateStateWithSlot env (s\<lparr>epochBoundarySlotToRoot := Map.empty\<rparr>) sl
          = Inl (Err BoundaryRootNotCached)"
    by (simp add: loadHotIntermediateStateWithSlot_def SlotToEpoch_def epochBoundaryRoot_def)
qed

text \<open>
  On tree 1 with the genesis state stored and the genesis root cached for slot 0: the read
  by root of B5 is the same with the map cleared; the read by slot 5 fails once it is.
\<close>

theorem cache_drop_transparent_by_root_only_witness:
  "loadHotStateByRoot test_env (tree1_hot\<lparr>epochBoundarySlotToRoot := Map.empty\<rparr>)
      (test_root t1_b5) = Inr \<lparr>st_Slot = 5, st_Payload = 3\<rparr>
   \<and> loadHotStateByRoot test_env tree1_hot (test_root t1_b5)
       = Inr \<lparr>st_Slot = 5, st_Payload = 3\<rparr>
   \<and> SlotsPerEpoch test_env \<noteq> 0
   \<and> loadHotIntermediateStateWithSlot test_env
        (tree1_hot\<lparr>epochBoundarySlotToRoot := Map.empty\<rparr>) 5
       = Inl (Err BoundaryRootNotCached)"
proof -
  have spe: "SlotsPerEpoch test_env \<noteq> 0"
    by (simp add: test_env_def)
  have d: "loadHotStateByRoot test_env tree1_hot (test_root t1_b5)
             = Inr \<lparr>st_Slot = 5, st_Payload = 3\<rparr>"
    by (simp add: loadHotStateByRoot_def LoadBlocks_def replayBlocks_def tree1_hot_def
        tree1_defs store_defs epoch_defs word_order_nat)
  from spe d
    cache_drop_transparent_by_root_only [where env = test_env and s = tree1_hot
      and cache = Map.empty and blockRoot = "test_root t1_b5" and sl = 5]
  show ?thesis by simp
qed

text \<open>
  The claim as stated fails: with the boundary map populated the read by slot 5 succeeds,
  with the map cleared the same read fails.
\<close>

theorem cache_drop_by_slot_counterexample:
  "loadHotIntermediateStateWithSlot test_env tree1_hot 5 = Inr \<lparr>st_Slot = 5, st_Payload = 3\<rparr>
   \<and> loadHotIntermediateStateWithSlot test_env
        (tree1_hot\<lparr>epochBoundarySlotToRoot := Map.empty\<rparr>) 5
       = Inl (Err BoundaryRootNotCached)"
  by (simp add: loadHotIntermediateStateWithSlot_def getLastValidBlock_def LoadBlocks_def
      replayBlocks_def epochBoundaryRoot_def tree1_hot_def tree1_defs store_defs epoch_defs
      word_order_nat)

section \<open>Saving, then loading by root\<close>

lemma loadHotStateByRoot_with_summary:
  assumes "summaries (beaconDB s) blockRoot = Some summary"
      and "\<not> failing (beaconDB s) (Call_HotStateSummary blockRoot)"
      and "\<not> failing (beaconDB s) (Call_State (sum_BoundaryRoot summary))"
      and "SlotsPerEpoch env \<noteq> 0"
  shows "loadHotStateByRoot env s blockRoot =
           (case states (beaconDB s) (sum_BoundaryRoot summary) of
              None \<Rightarrow> Inl (Err NilBoundaryState)
            | Some boundaryState \<Rightarrow>
                if sum_Slot summary mod SlotsPerEpoch env = 0 then Inr boundaryState
                else (case LoadBlocks env s (st_Slot boundaryState + 1) (sum_Slot summary)
                             (sum_LatestRoot summary) of
                        Inl e \<Rightarrow> Inl e
                      | Inr blks \<Rightarrow> replayBlocks env boundaryState blks (sum_Slot summary)))"
  using assms
  by (simp add: loadHotStateByRoot_def db_HotStateSummary_def db_State_def IsEpochStart_def
      Let_def split: option.splits)

text \<open>
  C1, as the code has it. After a successful \<^verbatim>\<open>saveHotState\<close> of a state under a root, on
  a store that answers the reads and with a replayer that ends at its target slot,
  \<^verbatim>\<open>loadHotStateByRoot\<close> of that root finds the summary just written. It fails with
  \<^verbatim>\<open>boundary state can't be nil\<close> when no state is stored under the summary's boundary root.
  When one is, it returns that state if the saved slot is an epoch start, and otherwise
  what replaying the loaded blocks from it up to the saved slot returns. If the saved slot
  is an epoch start and the boundary map had no entry for it, the state returned is the
  saved state itself. Whatever state is returned in the replay case, or with no entry in
  the map, has the saved state's slot.
\<close>

theorem saveHotState_then_loadHotStateByRoot:
  assumes save: "saveHotState env s blockRoot state = (Inr (), s')"
      and summary_read: "\<not> failing (beaconDB s') (Call_HotStateSummary blockRoot)"
      and state_read: "\<forall>r. \<not> failing (beaconDB s') (Call_State r)"
      and replay: "\<forall>st blks t st'. ReplayBlocks env st blks t = Inr st' \<longrightarrow> st_Slot st' = t"
  shows "\<exists>boundaryRoot.
           summaries (beaconDB s') blockRoot
             = Some \<lparr>sum_Slot = st_Slot state, sum_LatestRoot = blockRoot,
                     sum_BoundaryRoot = boundaryRoot\<rparr>
         \<and> loadHotStateByRoot env s' blockRoot =
             (case states (beaconDB s') boundaryRoot of
                None \<Rightarrow> Inl (Err NilBoundaryState)
              | Some boundaryState \<Rightarrow>
                  if st_Slot state mod SlotsPerEpoch env = 0 then Inr boundaryState
                  else (case LoadBlocks env s' (st_Slot boundaryState + 1) (st_Slot state)
                               blockRoot of
                          Inl e \<Rightarrow> Inl e
                        | Inr blks \<Rightarrow> replayBlocks env boundaryState blks (st_Slot state)))
         \<and> (st_Slot state mod SlotsPerEpoch env = 0
              \<and> epochBoundarySlotToRoot s (st_Slot state) = None \<longrightarrow>
              loadHotStateByRoot env s' blockRoot = Inr state)
         \<and> (\<forall>loaded.
               (st_Slot state mod SlotsPerEpoch env \<noteq> 0
                \<or> epochBoundarySlotToRoot s (st_Slot state) = None)
               \<and> loadHotStateByRoot env s' blockRoot = Inr loaded \<longrightarrow>
               st_Slot loaded = st_Slot state)"
proof -
  from saveHotState_steps [OF save] obtain epochRoot s1 s2 where
    spe: "SlotsPerEpoch env \<noteq> 0"
    and s1: "s1 = (if st_Slot state mod SlotsPerEpoch env = 0
                 then s\<lparr>beaconDB := (beaconDB s)
                            \<lparr>states := (states (beaconDB s))(blockRoot \<mapsto> state)\<rparr>,
                        hotStateSaved := hotStateSaved s + 1\<rparr>
                 else s)"
    and l: "loadEpochBoundaryRoot env s1 blockRoot state = (Inr epochRoot, s2)"
    and s': "s' = s2\<lparr>beaconDB := (beaconDB s2)
                 \<lparr>summaries := (summaries (beaconDB s2))
                    (blockRoot \<mapsto> \<lparr>sum_Slot = st_Slot state, sum_LatestRoot = blockRoot,
                                    sum_BoundaryRoot = epochRoot\<rparr>)\<rparr>,
              hotSummarySaved := hotSummarySaved s2 + 1\<rparr>"
    by blast
  let ?summary = "\<lparr>sum_Slot = st_Slot state, sum_LatestRoot = blockRoot,
                   sum_BoundaryRoot = epochRoot\<rparr>"
  have summary: "summaries (beaconDB s') blockRoot = Some ?summary"
    by (simp add: s')
  have load: "loadHotStateByRoot env s' blockRoot =
             (case states (beaconDB s') epochRoot of
                None \<Rightarrow> Inl (Err NilBoundaryState)
              | Some boundaryState \<Rightarrow>
                  if st_Slot state mod SlotsPerEpoch env = 0 then Inr boundaryState
                  else (case LoadBlocks env s' (st_Slot boundaryState + 1) (st_Slot state)
                               blockRoot of
                          Inl e \<Rightarrow> Inl e
                        | Inr blks \<Rightarrow> replayBlocks env boundaryState blks (st_Slot state)))"
  proof -
    from state_read have "\<not> failing (beaconDB s') (Call_State (sum_BoundaryRoot ?summary))"
      by blast
    from loadHotStateByRoot_with_summary [OF summary summary_read this spe]
    show ?thesis by (simp cong: option.case_cong if_cong sum.case_cong)
  qed
  have fresh: "loadHotStateByRoot env s' blockRoot = Inr state"
    if b: "st_Slot state mod SlotsPerEpoch env = 0"
      and miss: "epochBoundarySlotToRoot s (st_Slot state) = None"
  proof -
    from b miss have "epochBoundarySlotToRoot s1 (st_Slot state) = None"
      by (simp add: s1)
    with loadEpochBoundaryRoot_on_boundary [OF spe b, of s1 blockRoot] l
    have "epochRoot = blockRoot" and "s2 = s1" by simp_all
    with b have "states (beaconDB s') epochRoot = Some state"
      by (simp add: s' s1)
    with load b show ?thesis by simp
  qed
  have replayed: "st_Slot loaded = st_Slot state"
    if nb: "st_Slot state mod SlotsPerEpoch env \<noteq> 0"
      and ld: "loadHotStateByRoot env s' blockRoot = Inr loaded" for loaded
  proof -
    from load nb ld obtain boundaryState blks where
      "replayBlocks env boundaryState blks (st_Slot state) = Inr loaded"
      by (auto split: option.splits sum.splits)
    then have "ReplayBlocks env boundaryState blks (st_Slot state) = Inr loaded"
      by (simp add: replayBlocks_def split: sum.splits)
    with replay show ?thesis by blast
  qed
  have fresh': "st_Slot state mod SlotsPerEpoch env = 0
              \<and> epochBoundarySlotToRoot s (st_Slot state) = None \<longrightarrow>
              loadHotStateByRoot env s' blockRoot = Inr state"
  proof (intro impI, elim conjE)
    assume "st_Slot state mod SlotsPerEpoch env = 0"
      and "epochBoundarySlotToRoot s (st_Slot state) = None"
    then show "loadHotStateByRoot env s' blockRoot = Inr state" by (rule fresh)
  qed
  have slots: "\<forall>loaded.
               (st_Slot state mod SlotsPerEpoch env \<noteq> 0
                \<or> epochBoundarySlotToRoot s (st_Slot state) = None)
               \<and> loadHotStateByRoot env s' blockRoot = Inr loaded \<longrightarrow>
               st_Slot loaded = st_Slot state"
  proof (intro allI impI)
    fix loaded
    assume a: "(st_Slot state mod SlotsPerEpoch env \<noteq> 0
                \<or> epochBoundarySlotToRoot s (st_Slot state) = None)
               \<and> loadHotStateByRoot env s' blockRoot = Inr loaded"
    show "st_Slot loaded = st_Slot state"
    proof (cases "st_Slot state mod SlotsPerEpoch env = 0")
      case True
      with a have "epochBoundarySlotToRoot s (st_Slot state) = None" by blast
      from fresh [OF True this] a show ?thesis by simp
    next
      case False
      from a have "loadHotStateByRoot env s' blockRoot = Inr loaded" by blast
      from replayed [OF False this] show ?thesis .
    qed
  qed
  show ?thesis
  proof (rule exI [of _ epochRoot], intro conjI)
    show "summaries (beaconDB s') blockRoot
             = Some \<lparr>sum_Slot = st_Slot state, sum_LatestRoot = blockRoot,
                     sum_BoundaryRoot = epochRoot\<rparr>"
      by (rule summary)
    show "loadHotStateByRoot env s' blockRoot =
             (case states (beaconDB s') epochRoot of
                None \<Rightarrow> Inl (Err NilBoundaryState)
              | Some boundaryState \<Rightarrow>
                  if st_Slot state mod SlotsPerEpoch env = 0 then Inr boundaryState
                  else (case LoadBlocks env s' (st_Slot boundaryState + 1) (st_Slot state)
                               blockRoot of
                          Inl e \<Rightarrow> Inl e
                        | Inr blks \<Rightarrow> replayBlocks env boundaryState blks (st_Slot state)))"
      by (rule load)
    show "st_Slot state mod SlotsPerEpoch env = 0
              \<and> epochBoundarySlotToRoot s (st_Slot state) = None \<longrightarrow>
              loadHotStateByRoot env s' blockRoot = Inr state"
      by (rule fresh')
    show "\<forall>loaded.
               (st_Slot state mod SlotsPerEpoch env \<noteq> 0
                \<or> epochBoundarySlotToRoot s (st_Slot state) = None)
               \<and> loadHotStateByRoot env s' blockRoot = Inr loaded \<longrightarrow>
               st_Slot loaded = st_Slot state"
      by (rule slots)
  qed
qed

text \<open>
  On tree 1 with the genesis state stored, saving a state of slot 5 under B5's root and
  loading it back replays B1, B3 and B5 from the genesis state and ends at slot 5; on
  tree 1 alone, saving the state of slot 8 under B8's root and loading it back returns
  that state.
\<close>

theorem saveHotState_then_loadHotStateByRoot_witness:
  "fst (saveHotState test_env tree1_hot (test_root t1_b5) state5) = Inr ()
   \<and> loadHotStateByRoot test_env
        (snd (saveHotState test_env tree1_hot (test_root t1_b5) state5)) (test_root t1_b5)
       = Inr \<lparr>st_Slot = 5, st_Payload = 3\<rparr>
   \<and> fst (saveHotState test_env tree1 (test_root t1_b8) state8) = Inr ()
   \<and> loadHotStateByRoot test_env
        (snd (saveHotState test_env tree1 (test_root t1_b8) state8)) (test_root t1_b8)
       = Inr state8"
proof -
  let ?s5 = "snd (saveHotState test_env tree1_hot (test_root t1_b5) state5)"
  let ?s8 = "snd (saveHotState test_env tree1 (test_root t1_b8) state8)"
  have replay:
    "\<forall>st blks t st'. ReplayBlocks test_env st blks t = Inr st' \<longrightarrow> st_Slot st' = t"
    by (auto simp: test_env_def test_replay_def split: if_splits)
  have ok5: "fst (saveHotState test_env tree1_hot (test_root t1_b5) state5) = Inr ()"
    by (simp add: saveHotState_def loadEpochBoundaryRoot_def state5_def tree1_hot_def
        tree1_defs store_defs epoch_defs)
  have load5: "loadHotStateByRoot test_env ?s5 (test_root t1_b5)
                 = Inr \<lparr>st_Slot = 5, st_Payload = 3\<rparr>"
    by (simp add: saveHotState_def loadEpochBoundaryRoot_def loadHotStateByRoot_def
        LoadBlocks_def replayBlocks_def state5_def tree1_hot_def tree1_defs store_defs
        epoch_defs word_order_nat)
  have ok8: "fst (saveHotState test_env tree1 (test_root t1_b8) state8) = Inr ()"
    by (simp add: saveHotState_def loadEpochBoundaryRoot_def state8_def tree1_defs
        store_defs epoch_defs)
  then have h8: "saveHotState test_env tree1 (test_root t1_b8) state8 = (Inr (), ?s8)"
    by (metis prod.collapse)
  have reads8: "failing (beaconDB ?s8) = (\<lambda>_. False)"
    by (simp add: saveHotState_def loadEpochBoundaryRoot_def state8_def tree1_defs
        store_defs epoch_defs)
  have b8: "st_Slot state8 mod SlotsPerEpoch test_env = 0"
    by (simp add: state8_def test_env_def)
  have miss8: "epochBoundarySlotToRoot tree1 (st_Slot state8) = None"
    by (simp add: tree1_defs)
  have r1: "\<not> failing (beaconDB ?s8) (Call_HotStateSummary (test_root t1_b8))"
    by (simp only: reads8) simp
  have r2: "\<forall>r. \<not> failing (beaconDB ?s8) (Call_State r)"
    by (simp only: reads8) simp
  from saveHotState_then_loadHotStateByRoot [OF h8 r1 r2 replay] b8 miss8
  have "loadHotStateByRoot test_env ?s8 (test_root t1_b8) = Inr state8"
    by blast
  with ok5 load5 ok8 show ?thesis by simp
qed

text \<open>
  The claim as stated fails. On tree 1 no state is stored: saving a state of slot 1 under
  B1's root succeeds, with the genesis root as boundary root, and loading it back fails
  because no state is stored under the genesis root. With a root cached for slot 8 that
  has no state, the same happens for the state of slot 8, an epoch start.
\<close>

theorem save_then_load_succeeds_counterexample:
  "fst (saveHotState test_env tree1 (test_root t1_b1) state1) = Inr ()
   \<and> loadHotStateByRoot test_env
        (snd (saveHotState test_env tree1 (test_root t1_b1) state1)) (test_root t1_b1)
       = Inl (Err NilBoundaryState)
   \<and> fst (saveHotState test_env tree1_cached8 (test_root t1_b8) state8) = Inr ()
   \<and> loadHotStateByRoot test_env
        (snd (saveHotState test_env tree1_cached8 (test_root t1_b8) state8))
        (test_root t1_b8)
       = Inl (Err NilBoundaryState)"
  by (simp add: saveHotState_def loadEpochBoundaryRoot_def loadHotStateByRoot_def
      setEpochBoundaryRoot_def state1_def state8_def tree1_cached8_def tree1_defs
      store_defs epoch_defs)

section \<open>The block chain reconstructor\<close>

lemma db_Block_Some: "db_Block db c = Inr (Some b) \<Longrightarrow> map_of (blocks db) c = Some b"
  by (simp add: db_Block_def split: if_splits)

lemma db_BlockRoots_in_window:
  assumes "db_BlockRoots db startSlot endSlot = Inr rs" and "c \<in> set rs"
  shows "\<exists>b. map_of (blocks db) c = Some b \<and> in_slots startSlot endSlot b"
proof -
  from assms(1) have
    "rs = map fst (sort_key (\<lambda>rb. blk_Slot (snd rb))
                     (filter (in_window db startSlot endSlot) (blocks db)))"
    by (simp add: db_BlockRoots_def split: if_splits)
  with assms(2) obtain rb where "rb \<in> set (blocks db)" "in_window db startSlot endSlot rb"
    and "c = fst rb"
    by auto
  then show ?thesis
    by (auto simp: in_window_def in_slots_def)
qed

lemma walk_invariant:
  assumes "walk env db startSlot cursor cs out = Inr res"
      and "I cursor out"
      and "\<And>cur acc c b. I cur acc \<Longrightarrow> c \<in> set cs \<Longrightarrow> map_of (blocks db) c = Some b \<Longrightarrow>
             HashTreeRoot env b = Some cur \<Longrightarrow> I (blk_ParentRoot b) (acc @ [b])"
  shows "\<exists>cur. I cur res"
  using assms
proof (induction cs arbitrary: cursor out)
  case Nil
  then show ?case by auto
next
  case (Cons c cs)
  have step: "I (blk_ParentRoot b) (acc @ [b])"
    if "I cur acc" "c' \<in> set cs" "map_of (blocks db) c' = Some b" "HashTreeRoot env b = Some cur"
    for cur acc c' b
    using Cons.prems(3) [of cur acc c' b] that by simp
  from Cons.prems(1) obtain parent where p: "db_Block db cursor = Inr parent"
    by (auto split: sum.splits)
  show ?case
  proof (cases "case parent of None \<Rightarrow> False | Some p \<Rightarrow> blk_Slot p < startSlot")
    case True
    with Cons.prems(1) p have "res = out" by simp
    with Cons.prems(2) show ?thesis by blast
  next
    case False
    with Cons.prems(1) p obtain b where b: "db_Block db c = Inr (Some b)"
      by (auto split: sum.splits option.splits)
    show ?thesis
    proof (cases "HashTreeRoot env b = Some cursor")
      case True
      with Cons.prems(1) p False b
      have w: "walk env db startSlot (blk_ParentRoot b) cs (out @ [b]) = Inr res"
        by simp
      have "I (blk_ParentRoot b) (out @ [b])"
        using Cons.prems(3) [of cursor out c b] Cons.prems(2) db_Block_Some [OF b] True
        by simp
      from Cons.IH [OF w this] step show ?thesis by blast
    next
      case hash: False
      with Cons.prems(1) p False b
      have w: "walk env db startSlot cursor cs out = Inr res"
        by simp
      from Cons.IH [OF w Cons.prems(2)] step show ?thesis by blast
    qed
  qed
qed
lemma linked_snoc:
  "acc \<noteq> [] \<Longrightarrow>
   linked env (acc @ [b])
     = (linked env acc \<and> HashTreeRoot env b = Some (blk_ParentRoot (last acc)))"
  by (induction env acc rule: linked.induct) auto

lemma descending_snoc:
  "descending (acc @ [b]) = (descending acc \<and> (\<forall>x\<in>set acc. blk_Slot b < blk_Slot x))"
  by (simp add: descending_def sorted_wrt_append)

lemma descending_last_least:
  "descending acc \<Longrightarrow> x \<in> set acc \<Longrightarrow> blk_Slot (last acc) \<le> blk_Slot x"
proof (induction acc)
  case Nil
  then show ?case by simp
next
  case (Cons a acc)
  show ?case
  proof (cases "acc = []")
    case True
    with Cons.prems show ?thesis by simp
  next
    case False
    then have l: "last acc \<in> set acc" by simp
    from Cons.prems(1) have d: "descending acc" and lt: "\<forall>y\<in>set acc. blk_Slot y < blk_Slot a"
      by (simp_all add: descending_def)
    show ?thesis
    proof (cases "x = a")
      case True
      with False l lt show ?thesis by (simp add: less_imp_le)
    next
      case ne: False
      with Cons.prems(2) have "x \<in> set acc" by simp
      from Cons.IH [OF d this] False show ?thesis by simp
    qed
  qed
qed

lemma descending_distinct_slots:
  "descending bs \<Longrightarrow> distinct (map (\<lambda>b. unat (blk_Slot b)) bs)"
  by (induction bs) (auto simp: descending_def word_less_nat_alt)

lemma descending_length:
  assumes "descending bs" and "list_all (in_slots startSlot endSlot) bs"
  shows "length bs \<le> unat endSlot - unat startSlot + 1"
proof -
  let ?slots = "map (\<lambda>b. unat (blk_Slot b)) bs"
  from assms(2) have "set ?slots \<subseteq> {unat startSlot..unat endSlot}"
    by (auto simp: list_all_iff in_slots_def word_le_nat_alt)
  then have "card (set ?slots) \<le> card {unat startSlot..unat endSlot}"
    by (intro card_mono) simp_all
  moreover from distinct_card [OF descending_distinct_slots [OF assms(1)]]
  have "card (set ?slots) = length bs"
    by (simp only: length_map)
  ultimately show ?thesis by simp
qed

lemma parents_olderD:
  "parents_older env db \<Longrightarrow> (r, child) \<in> set (blocks db) \<Longrightarrow> (r', parent) \<in> set (blocks db) \<Longrightarrow>
   HashTreeRoot env parent = Some (blk_ParentRoot child) \<Longrightarrow> blk_Slot parent < blk_Slot child"
  by (fastforce simp: parents_older_def list_all_iff)
lemma LoadBlocks_walk:
  assumes "LoadBlocks env s startSlot endSlot endRoot = Inr bs"
  obtains rs endBlock where
    "db_BlockRoots (beaconDB s) startSlot endSlot = Inr rs"
    "db_Block (beaconDB s) endRoot = Inr (Some endBlock)"
    "endRoot \<in> set rs"
    "HashTreeRoot env endBlock = Some endRoot"
    "walk env (beaconDB s) startSlot (blk_ParentRoot endBlock) (rev rs) [endBlock] = Inr bs"
  using assms
  by (auto simp: LoadBlocks_def split: sum.splits option.splits if_splits)

lemma keyed_by_hashD:
  "keyed_by_hash env db \<Longrightarrow> map_of (blocks db) r = Some b \<Longrightarrow> HashTreeRoot env b = Some r"
  by (auto simp: keyed_by_hash_def list_all_iff dest!: map_of_SomeD)

lemma slot_geD:
  "slot_ge db c c' \<Longrightarrow> map_of (blocks db) c = Some b \<Longrightarrow> map_of (blocks db) c' = Some b' \<Longrightarrow>
   blk_Slot b' \<le> blk_Slot b"
  by (simp add: slot_ge_def)

lemma db_BlockRoots_complete:
  assumes "db_BlockRoots db startSlot endSlot = Inr rs"
      and "map_of (blocks db) r = Some b" and "in_slots startSlot endSlot b"
  shows "r \<in> set rs"
proof -
  from assms(1) have
    rs: "rs = map fst (sort_key (\<lambda>rb. blk_Slot (snd rb))
                     (filter (in_window db startSlot endSlot) (blocks db)))"
    by (simp add: db_BlockRoots_def split: if_splits)
  from assms(2) have "(r, b) \<in> set (blocks db)" by (rule map_of_SomeD)
  moreover from assms(2,3) have "in_window db startSlot endSlot (r, b)"
    by (simp add: in_window_def in_slots_def)
  ultimately have "(r, b) \<in> set (filter (in_window db startSlot endSlot) (blocks db))"
    by simp
  then show ?thesis
    unfolding rs by force
qed

lemma db_BlockRoots_descending:
  assumes "db_BlockRoots db startSlot endSlot = Inr rs"
  shows "sorted_wrt (slot_ge db) (rev rs)"
proof -
  let ?ys = "sort_key (\<lambda>rb. blk_Slot (snd rb))
               (filter (in_window db startSlot endSlot) (blocks db))"
  from assms have rs: "rs = map fst ?ys"
    by (simp add: db_BlockRoots_def split: if_splits)
  have "sorted (map (\<lambda>rb. blk_Slot (snd rb)) ?ys)" by (rule sorted_sort_key)
  then have s: "sorted_wrt (\<lambda>a b. blk_Slot (snd a) \<le> blk_Slot (snd b)) ?ys"
    by (simp add: sorted_wrt_map)
  have own: "map_of (blocks db) (fst a) = Some (snd a)" if "a \<in> set ?ys" for a
    using that by (simp add: in_window_def)
  have "sorted_wrt (\<lambda>a b. slot_ge db (fst b) (fst a)) ?ys"
  proof (rule sorted_wrt_mono_rel [OF _ s])
    fix a b
    assume "a \<in> set ?ys" and "b \<in> set ?ys" and "blk_Slot (snd a) \<le> blk_Slot (snd b)"
    with own [of a] own [of b] show "slot_ge db (fst b) (fst a)"
      by (simp add: slot_ge_def)
  qed
  then show ?thesis
    by (simp add: rs sorted_wrt_rev sorted_wrt_map)
qed

lemma walk_reaches:
  assumes "walk env db startSlot cursor cs out = Inr res"
      and keyed: "keyed_by_hash env db" and older: "parents_older env db"
      and "out \<noteq> []" and "cursor = blk_ParentRoot (last out)"
      and "sorted_wrt (slot_ge db) cs"
      and "\<forall>c\<in>set cs. \<forall>b. map_of (blocks db) c = Some b \<longrightarrow> blk_Slot b \<le> endSlot"
      and "\<forall>r b. map_of (blocks db) r = Some b \<longrightarrow> in_slots startSlot endSlot b \<longrightarrow> r \<notin> set cs \<longrightarrow>
             (\<forall>c\<in>set cs. \<forall>b'. map_of (blocks db) c = Some b' \<longrightarrow> blk_Slot b' \<le> blk_Slot b)"
      and "\<forall>p. map_of (blocks db) cursor = Some p \<longrightarrow> startSlot \<le> blk_Slot p \<longrightarrow> cursor \<in> set cs"
  shows "res \<noteq> [] \<and> reaches_bottom db startSlot res"
  using assms(1,4-)
proof (induction cs arbitrary: cursor out)
  case Nil
  from Nil.prems(1) have res: "res = out" by simp
  from Nil.prems(7) have "\<forall>p. map_of (blocks db) cursor = Some p \<longrightarrow> blk_Slot p < startSlot"
    by (auto simp: not_le)
  with res Nil.prems(2,3) show ?case
    by (simp add: reaches_bottom_def split: option.splits)
next
  case (Cons c cs)
  note w = Cons.prems(1) and ne = Cons.prems(2) and cur = Cons.prems(3)
    and srt = Cons.prems(4) and W = Cons.prems(5) and L = Cons.prems(6) and K = Cons.prems(7)
  from w obtain parent where p: "db_Block db cursor = Inr parent"
    by (auto split: sum.splits)
  then have parent: "parent = map_of (blocks db) cursor"
    by (simp add: db_Block_def split: if_splits)
  show ?case
  proof (cases "case parent of None \<Rightarrow> False | Some p \<Rightarrow> blk_Slot p < startSlot")
    case True
    with w p have "res = out" by simp
    with True parent ne cur show ?thesis
      by (simp add: reaches_bottom_def split: option.splits)
  next
    case False
    with w p obtain b where b: "db_Block db c = Inr (Some b)"
      by (auto split: sum.splits option.splits)
    then have cb: "map_of (blocks db) c = Some b" by (rule db_Block_Some)
    from keyed_by_hashD [OF keyed cb] have hb: "HashTreeRoot env b = Some c" .
    from srt have srt': "sorted_wrt (slot_ge db) cs"
      and head: "\<forall>c'\<in>set cs. slot_ge db c c'"
      by simp_all
    from W have W': "\<forall>c\<in>set cs. \<forall>b. map_of (blocks db) c = Some b \<longrightarrow> blk_Slot b \<le> endSlot"
      and bend: "blk_Slot b \<le> endSlot"
      using cb by simp_all
    have L': "\<forall>r br. map_of (blocks db) r = Some br \<longrightarrow> in_slots startSlot endSlot br \<longrightarrow>
                r \<notin> set cs \<longrightarrow>
                (\<forall>c'\<in>set cs. \<forall>b'. map_of (blocks db) c' = Some b' \<longrightarrow> blk_Slot b' \<le> blk_Slot br)"
    proof (intro allI impI ballI)
      fix r br c' b'
      assume r: "map_of (blocks db) r = Some br" and win: "in_slots startSlot endSlot br"
        and out: "r \<notin> set cs" and c': "c' \<in> set cs" and b': "map_of (blocks db) c' = Some b'"
      show "blk_Slot b' \<le> blk_Slot br"
      proof (cases "r = c")
        case True
        with r cb have "br = b" by simp
        moreover from head c' have "slot_ge db c c'" by blast
        ultimately show ?thesis using slot_geD [OF _ cb b'] by simp
      next
        case False
        with out have "r \<notin> set (c # cs)" by simp
        with L r win c' b' show ?thesis by (meson list.set_intros(2))
      qed
    qed
    show ?thesis
    proof (cases "HashTreeRoot env b = Some cursor")
      case True
      with hb have same: "c = cursor" by simp
      from w p False b True
      have w': "walk env db startSlot (blk_ParentRoot b) cs (out @ [b]) = Inr res"
        by simp
      have K': "\<forall>p'. map_of (blocks db) (blk_ParentRoot b) = Some p' \<longrightarrow>
                  startSlot \<le> blk_Slot p' \<longrightarrow> blk_ParentRoot b \<in> set cs"
      proof (intro allI impI)
        fix p'
        assume p': "map_of (blocks db) (blk_ParentRoot b) = Some p'"
          and low: "startSlot \<le> blk_Slot p'"
        from keyed_by_hashD [OF keyed p'] have "HashTreeRoot env p' = Some (blk_ParentRoot b)" .
        from parents_olderD [OF older map_of_SomeD [OF cb] map_of_SomeD [OF p'] this]
        have lt: "blk_Slot p' < blk_Slot b" .
        with bend low have win: "in_slots startSlot endSlot p'"
          by (simp add: in_slots_def)
        show "blk_ParentRoot b \<in> set cs"
        proof (rule ccontr)
          assume notin: "blk_ParentRoot b \<notin> set cs"
          show False
          proof (cases "blk_ParentRoot b = c")
            case True
            with p' cb have "p' = b" by simp
            with lt show False by simp
          next
            case False
            with notin have "blk_ParentRoot b \<notin> set (c # cs)" by simp
            with L p' win cb have "blk_Slot b \<le> blk_Slot p'"
              by (meson list.set_intros(1))
            with lt show False by simp
          qed
        qed
      qed
      have "out @ [b] \<noteq> []" and "blk_ParentRoot b = blk_ParentRoot (last (out @ [b]))"
        by simp_all
      from Cons.IH [OF w' this srt' W' L' K'] show ?thesis .
    next
      case hash: False
      with hb have ne_c: "c \<noteq> cursor" by auto
      from w p False b hash
      have w': "walk env db startSlot cursor cs out = Inr res"
        by simp
      from K ne_c have K': "\<forall>p. map_of (blocks db) cursor = Some p \<longrightarrow>
                  startSlot \<le> blk_Slot p \<longrightarrow> cursor \<in> set cs"
        by auto
      from Cons.IH [OF w' ne cur srt' W' L' K'] show ?thesis .
    qed
  qed
qed

text \<open>
  C2, as the spec's walk has it. For every sequence that \<open>load_blocks\<close> returns: it is not
  empty and element 0 has root \<open>end_root\<close>; each successor's root equals the parent root
  of the element before it; every element, the last one included, is a stored block with
  its slot in the window from \<open>start_slot\<close> to \<open>end_slot\<close>. In a store where a block's
  parent has the smaller slot, slots strictly decrease along the sequence, so that of
  several siblings of one slot only one appears, and the length is at most
  \<open>end_slot - start_slot + 1\<close>. If the store moreover keeps each block under its hash, the
  walk goes as far down as the window allows: the parent root of the last element
  designates no stored block, or a stored block whose slot is below \<open>start_slot\<close>.
\<close>

theorem LoadBlocks_chain_ordering:
  assumes "LoadBlocks env s startSlot endSlot endRoot = Inr bs"
  shows "bs \<noteq> [] \<and> HashTreeRoot env (hd bs) = Some endRoot
       \<and> linked env bs
       \<and> list_all (in_slots startSlot endSlot) bs
       \<and> list_all (stored (beaconDB s)) bs
       \<and> (parents_older env (beaconDB s) \<longrightarrow>
            descending bs \<and> length bs \<le> unat endSlot - unat startSlot + 1)
       \<and> (keyed_by_hash env (beaconDB s) \<and> parents_older env (beaconDB s) \<longrightarrow>
            reaches_bottom (beaconDB s) startSlot bs)"
proof -
  from LoadBlocks_walk [OF assms] obtain rs endBlock where
    rs: "db_BlockRoots (beaconDB s) startSlot endSlot = Inr rs"
    and eb: "db_Block (beaconDB s) endRoot = Inr (Some endBlock)"
    and mem: "endRoot \<in> set rs"
    and hash: "HashTreeRoot env endBlock = Some endRoot"
    and w: "walk env (beaconDB s) startSlot (blk_ParentRoot endBlock) (rev rs) [endBlock] = Inr bs"
    by blast
  define I where
    "I = (\<lambda>cur acc. acc \<noteq> [] \<and> cur = blk_ParentRoot (last acc) \<and> hd acc = endBlock
            \<and> linked env acc \<and> list_all (in_slots startSlot endSlot) acc
            \<and> (\<forall>x\<in>set acc. \<exists>r. (r, x) \<in> set (blocks (beaconDB s)))
            \<and> (parents_older env (beaconDB s) \<longrightarrow> descending acc))"
  have stored: "map_of (blocks (beaconDB s)) endRoot = Some endBlock"
    by (rule db_Block_Some [OF eb])
  from db_BlockRoots_in_window [OF rs mem] stored
  have win: "in_slots startSlot endSlot endBlock" by auto
  from stored have held: "(endRoot, endBlock) \<in> set (blocks (beaconDB s))"
    by (rule map_of_SomeD)
  with win have init: "I (blk_ParentRoot endBlock) [endBlock]"
    by (auto simp: I_def descending_def)
  have step: "I (blk_ParentRoot b) (acc @ [b])"
    if inv: "I cur acc" and c: "c \<in> set (rev rs)"
      and b: "map_of (blocks (beaconDB s)) c = Some b"
      and h: "HashTreeRoot env b = Some cur"
    for cur acc c b
  proof -
    from inv have ne: "acc \<noteq> []" and cur: "cur = blk_ParentRoot (last acc)"
      and hd: "hd acc = endBlock" and lk: "linked env acc"
      and ws: "list_all (in_slots startSlot endSlot) acc"
      and st: "\<forall>x\<in>set acc. \<exists>r. (r, x) \<in> set (blocks (beaconDB s))"
      and ds: "parents_older env (beaconDB s) \<longrightarrow> descending acc"
      by (simp_all add: I_def)
    from c have "c \<in> set rs" by simp
    from db_BlockRoots_in_window [OF rs this] b have bw: "in_slots startSlot endSlot b"
      by auto
    from b have bs: "(c, b) \<in> set (blocks (beaconDB s))" by (rule map_of_SomeD)
    have desc: "descending (acc @ [b])" if po: "parents_older env (beaconDB s)"
    proof -
      from po ds have d: "descending acc" by blast
      from ne st obtain r where "(r, last acc) \<in> set (blocks (beaconDB s))"
        by (meson last_in_set)
      from parents_olderD [OF po this bs] h cur
      have lt: "blk_Slot b < blk_Slot (last acc)" by simp
      have "blk_Slot b < blk_Slot x" if "x \<in> set acc" for x
        using descending_last_least [OF d that] lt by simp
      with d show ?thesis by (simp add: descending_snoc)
    qed
    from ne cur hd lk ws st bw bs h desc show ?thesis
      by (auto simp: I_def linked_snoc)
  qed
  have "\<exists>cur. I cur bs"
  proof (rule walk_invariant [where I = I, OF w init])
    fix cur acc c b
    assume "I cur acc" and "c \<in> set (rev rs)"
      and "map_of (blocks (beaconDB s)) c = Some b" and "HashTreeRoot env b = Some cur"
    then show "I (blk_ParentRoot b) (acc @ [b])" by (rule step)
  qed
  then obtain cur where res: "I cur bs" by blast
  then have ne: "bs \<noteq> []" and hd: "hd bs = endBlock" and lk: "linked env bs"
    and ws: "list_all (in_slots startSlot endSlot) bs"
    and st: "\<forall>x\<in>set bs. \<exists>r. (r, x) \<in> set (blocks (beaconDB s))"
    and ds: "parents_older env (beaconDB s) \<longrightarrow> descending bs"
    by (simp_all add: I_def)
  from st have sts: "list_all (stored (beaconDB s)) bs"
    by (force simp: list_all_iff stored_def)
  from ds ws have len: "parents_older env (beaconDB s) \<longrightarrow>
            descending bs \<and> length bs \<le> unat endSlot - unat startSlot + 1"
    using descending_length [of bs startSlot endSlot] by blast
  have reach: "reaches_bottom (beaconDB s) startSlot bs"
    if keyed: "keyed_by_hash env (beaconDB s)" and older: "parents_older env (beaconDB s)"
  proof -
    have srt: "sorted_wrt (slot_ge (beaconDB s)) (rev rs)"
      by (rule db_BlockRoots_descending [OF rs])
    have W: "\<forall>c\<in>set (rev rs). \<forall>b. map_of (blocks (beaconDB s)) c = Some b \<longrightarrow>
               blk_Slot b \<le> endSlot"
      using db_BlockRoots_in_window [OF rs] by (fastforce simp: in_slots_def)
    have L: "\<forall>r b. map_of (blocks (beaconDB s)) r = Some b \<longrightarrow> in_slots startSlot endSlot b \<longrightarrow>
               r \<notin> set (rev rs) \<longrightarrow>
               (\<forall>c\<in>set (rev rs). \<forall>b'. map_of (blocks (beaconDB s)) c = Some b' \<longrightarrow>
                  blk_Slot b' \<le> blk_Slot b)"
      using db_BlockRoots_complete [OF rs] by auto
    have K: "\<forall>p. map_of (blocks (beaconDB s)) (blk_ParentRoot endBlock) = Some p \<longrightarrow>
               startSlot \<le> blk_Slot p \<longrightarrow> blk_ParentRoot endBlock \<in> set (rev rs)"
    proof (intro allI impI)
      fix p
      assume p: "map_of (blocks (beaconDB s)) (blk_ParentRoot endBlock) = Some p"
        and low: "startSlot \<le> blk_Slot p"
      from keyed_by_hashD [OF keyed p]
      have "HashTreeRoot env p = Some (blk_ParentRoot endBlock)" .
      from parents_olderD [OF older held map_of_SomeD [OF p] this]
      have "blk_Slot p < blk_Slot endBlock" .
      with win low have "in_slots startSlot endSlot p"
        by (simp add: in_slots_def word_order_nat)
      from db_BlockRoots_complete [OF rs p this]
      show "blk_ParentRoot endBlock \<in> set (rev rs)" by simp
    qed
    have "[endBlock] \<noteq> []" and "blk_ParentRoot endBlock = blk_ParentRoot (last [endBlock])"
      by simp_all
    from walk_reaches [OF w keyed older this srt W L K] show ?thesis by simp
  qed
  show ?thesis
  proof (intro conjI impI)
    show "bs \<noteq> []" by (rule ne)
    show "HashTreeRoot env (hd bs) = Some endRoot" using hd hash by simp
    show "linked env bs" by (rule lk)
    show "list_all (in_slots startSlot endSlot) bs" by (rule ws)
    show "list_all (stored (beaconDB s)) bs" by (rule sts)
    show "descending bs" if "parents_older env (beaconDB s)"
      using that len by blast
    show "length bs \<le> unat endSlot - unat startSlot + 1" if "parents_older env (beaconDB s)"
      using that len by blast
    show "reaches_bottom (beaconDB s) startSlot bs"
      if "keyed_by_hash env (beaconDB s) \<and> parents_older env (beaconDB s)"
      using that reach by blast
  qed
qed

text \<open>
  Tree 2 has four siblings at slot 2, all children of B1, and B3 is the child of the
  fourth: the walk from B3 over the window 0 to 3 returns B3, B24, B1, B0, and the parent
  root of B0 designates no stored block. On tree 1 the walk from B5 over the window 2 to 5
  returns B5, B3, and the parent of B3 is B1, of slot 1.
\<close>

theorem LoadBlocks_chain_ordering_witness:
  "LoadBlocks test_env tree2 0 3 (test_root t2_b3) = Inr [t2_b3, t2_b24, t2_b1, t2_b0]
   \<and> parents_older test_env (beaconDB tree2)
   \<and> keyed_by_hash test_env (beaconDB tree2)
   \<and> linked test_env [t2_b3, t2_b24, t2_b1, t2_b0]
   \<and> list_all (in_slots 0 3) [t2_b3, t2_b24, t2_b1, t2_b0]
   \<and> list_all (stored (beaconDB tree2)) [t2_b3, t2_b24, t2_b1, t2_b0]
   \<and> descending [t2_b3, t2_b24, t2_b1, t2_b0]
   \<and> length [t2_b3, t2_b24, t2_b1, t2_b0] \<le> unat (3 :: slot) - unat (0 :: slot) + 1
   \<and> reaches_bottom (beaconDB tree2) 0 [t2_b3, t2_b24, t2_b1, t2_b0]
   \<and> map_of (blocks (beaconDB tree2)) (blk_ParentRoot t2_b0) = None
   \<and> LoadBlocks test_env tree1 2 5 (test_root t1_b5) = Inr [t1_b5, t1_b3]
   \<and> parents_older test_env (beaconDB tree1)
   \<and> keyed_by_hash test_env (beaconDB tree1)
   \<and> reaches_bottom (beaconDB tree1) 2 [t1_b5, t1_b3]
   \<and> map_of (blocks (beaconDB tree1)) (blk_ParentRoot t1_b3) = Some t1_b1"
proof -
  have run: "LoadBlocks test_env tree2 0 3 (test_root t2_b3) = Inr [t2_b3, t2_b24, t2_b1, t2_b0]"
    by (simp add: LoadBlocks_def tree2_defs store_defs word_order_nat)
  have po: "parents_older test_env (beaconDB tree2)"
    by (simp add: parents_older_def tree2_defs word_order_nat)
  have kh: "keyed_by_hash test_env (beaconDB tree2)"
    by (simp add: keyed_by_hash_def tree2_defs)
  have top: "map_of (blocks (beaconDB tree2)) (blk_ParentRoot t2_b0) = None"
    by (simp add: tree2_defs)
  have run1: "LoadBlocks test_env tree1 2 5 (test_root t1_b5) = Inr [t1_b5, t1_b3]"
    by (simp add: LoadBlocks_def tree1_defs store_defs word_order_nat)
  have po1: "parents_older test_env (beaconDB tree1)"
    by (simp add: parents_older_def tree1_defs word_order_nat)
  have kh1: "keyed_by_hash test_env (beaconDB tree1)"
    by (simp add: keyed_by_hash_def tree1_defs)
  have below: "map_of (blocks (beaconDB tree1)) (blk_ParentRoot t1_b3) = Some t1_b1"
    by (simp add: tree1_defs)
  from LoadBlocks_chain_ordering [OF run] po kh
  have a: "linked test_env [t2_b3, t2_b24, t2_b1, t2_b0]
   \<and> list_all (in_slots 0 3) [t2_b3, t2_b24, t2_b1, t2_b0]
   \<and> list_all (stored (beaconDB tree2)) [t2_b3, t2_b24, t2_b1, t2_b0]
   \<and> descending [t2_b3, t2_b24, t2_b1, t2_b0]
   \<and> length [t2_b3, t2_b24, t2_b1, t2_b0] \<le> unat (3 :: slot) - unat (0 :: slot) + 1
   \<and> reaches_bottom (beaconDB tree2) 0 [t2_b3, t2_b24, t2_b1, t2_b0]"
    by blast
  from LoadBlocks_chain_ordering [OF run1] po1 kh1
  have b: "reaches_bottom (beaconDB tree1) 2 [t1_b5, t1_b3]"
    by blast
  from run po kh top run1 po1 kh1 below a b show ?thesis by blast
qed

text \<open>
  The claim as stated fails on the last element. On tree 1 the candidates of the window 2
  to 5 are B2, B3, B4 and B5, and the walk appends candidates only. From B5 it returns
  B5, B3: B2 is not on the path, and B1, the parent of B3, has slot 1 and is no candidate.
  The slot of the last element is 3, above the start slot 2.
\<close>

theorem last_slot_at_most_start_counterexample:
  "LoadBlocks test_env tree1 2 5 (test_root t1_b5) = Inr [t1_b5, t1_b3]
   \<and> blk_Slot (last [t1_b5, t1_b3]) = 3
   \<and> \<not> blk_Slot (last [t1_b5, t1_b3]) \<le> 2
   \<and> db_BlockRoots (beaconDB tree1) 2 5
       = Inr [test_root t1_b2, test_root t1_b3, test_root t1_b4, test_root t1_b5]
   \<and> blk_ParentRoot t1_b5 = test_root t1_b3
   \<and> blk_ParentRoot t1_b3 = test_root t1_b1
   \<and> blk_Slot t1_b1 = 1"
  by (simp add: LoadBlocks_def tree1_defs store_defs word_order_nat)

lemma LoadBlocks_head:
  assumes "LoadBlocks env s startSlot endSlot endRoot = Inr bs"
  shows "bs \<noteq> [] \<and> HashTreeRoot env (hd bs) = Some endRoot"
proof -
  from LoadBlocks_walk [OF assms] obtain rs endBlock where
    hash: "HashTreeRoot env endBlock = Some endRoot"
    and w: "walk env (beaconDB s) startSlot (blk_ParentRoot endBlock) (rev rs) [endBlock] = Inr bs"
    by blast
  have "\<exists>cur :: root. bs \<noteq> [] \<and> hd bs = endBlock"
    by (rule walk_invariant [where I = "\<lambda>cur acc. acc \<noteq> [] \<and> hd acc = endBlock", OF w]) simp_all
  with hash show ?thesis by simp
qed

lemma beyond_window_not_candidate:
  assumes "db_BlockRoots db startSlot endSlot = Inr rs"
      and "db_Block db endRoot = Inr (Some endBlock)"
      and "endSlot < blk_Slot endBlock"
  shows "endRoot \<notin> set rs"
proof
  assume "endRoot \<in> set rs"
  from db_BlockRoots_in_window [OF assms(1) this] db_Block_Some [OF assms(2)]
  have "in_slots startSlot endSlot endBlock" by auto
  with assms(3) show False by (simp add: in_slots_def word_order_nat)
qed

text \<open>
  C6. A sequence that \<open>load_blocks\<close> returns starts with the block whose root is
  \<open>end_root\<close>. When the store answers and the block stored under \<open>end_root\<close> has a slot
  above the window, or is for any other reason not among the window's candidates, the call
  fails with \<open>ChainMismatch\<close>, whose message is \<^verbatim>\<open>end block roots don't match\<close>.
\<close>

theorem LoadBlocks_end_root_must_match:
  "(LoadBlocks env s startSlot endSlot endRoot = Inr bs \<longrightarrow>
      bs \<noteq> [] \<and> HashTreeRoot env (hd bs) = Some endRoot)
   \<and> (db_BlockRoots (beaconDB s) startSlot endSlot = Inr rs
        \<and> db_Block (beaconDB s) endRoot = Inr (Some endBlock)
        \<and> endSlot < blk_Slot endBlock \<longrightarrow>
        LoadBlocks env s startSlot endSlot endRoot = Inl (Err ChainMismatch))
   \<and> (db_BlockRoots (beaconDB s) startSlot endSlot = Inr rs
        \<and> db_Block (beaconDB s) endRoot = Inr (Some endBlock)
        \<and> endRoot \<notin> set rs \<longrightarrow>
        LoadBlocks env s startSlot endSlot endRoot = Inl (Err ChainMismatch))
   \<and> message ChainMismatch = Some ''end block roots don't match''"
proof (intro conjI impI)
  assume "LoadBlocks env s startSlot endSlot endRoot = Inr bs"
  then show "bs \<noteq> []" and "HashTreeRoot env (hd bs) = Some endRoot"
    by (simp_all add: LoadBlocks_head)
next
  assume a: "db_BlockRoots (beaconDB s) startSlot endSlot = Inr rs
        \<and> db_Block (beaconDB s) endRoot = Inr (Some endBlock)
        \<and> endSlot < blk_Slot endBlock"
  then have "endRoot \<notin> set rs"
    using beyond_window_not_candidate [of "beaconDB s" startSlot endSlot rs endRoot endBlock]
    by blast
  with a show "LoadBlocks env s startSlot endSlot endRoot = Inl (Err ChainMismatch)"
    by (simp add: LoadBlocks_def)
next
  assume "db_BlockRoots (beaconDB s) startSlot endSlot = Inr rs
        \<and> db_Block (beaconDB s) endRoot = Inr (Some endBlock)
        \<and> endRoot \<notin> set rs"
  then show "LoadBlocks env s startSlot endSlot endRoot = Inl (Err ChainMismatch)"
    by (simp add: LoadBlocks_def)
next
  show "message ChainMismatch = Some ''end block roots don't match''" by simp
qed

text \<open>
  The test \<^verbatim>\<open>TestLoadBlocks_BadStart\<close>: on tree 1, B8 has slot 8 and the window ends at
  slot 5; the other three walks of the tests succeed.
\<close>

theorem LoadBlocks_end_root_must_match_witness:
  "db_BlockRoots (beaconDB tree1) 0 5
     = Inr [test_root t1_b0, test_root t1_b1, test_root t1_b2, test_root t1_b3,
            test_root t1_b4, test_root t1_b5]
   \<and> db_Block (beaconDB tree1) (test_root t1_b8) = Inr (Some t1_b8)
   \<and> (5 :: slot) < blk_Slot t1_b8
   \<and> LoadBlocks test_env tree1 0 5 (test_root t1_b8) = Inl (Err ChainMismatch)
   \<and> message ChainMismatch = Some ''end block roots don't match''
   \<and> LoadBlocks test_env tree1 0 8 (test_root t1_b8)
       = Inr [t1_b8, t1_b6, t1_b4, t1_b2, t1_b1, t1_b0]
   \<and> LoadBlocks test_env tree1 0 5 (test_root t1_b5) = Inr [t1_b5, t1_b3, t1_b1, t1_b0]
   \<and> LoadBlocks test_env tree1 0 7 (test_root t1_b7)
       = Inr [t1_b7, t1_b6, t1_b4, t1_b2, t1_b1, t1_b0]"
proof -
  have rs: "db_BlockRoots (beaconDB tree1) 0 5
     = Inr [test_root t1_b0, test_root t1_b1, test_root t1_b2, test_root t1_b3,
            test_root t1_b4, test_root t1_b5]"
    by (simp add: tree1_defs store_defs word_order_nat)
  have eb: "db_Block (beaconDB tree1) (test_root t1_b8) = Inr (Some t1_b8)"
    by (simp add: tree1_defs store_defs)
  have above: "(5 :: slot) < blk_Slot t1_b8"
    by (simp add: tree1_defs word_order_nat)
  have first: "LoadBlocks test_env tree1 0 8 (test_root t1_b8)
       = Inr [t1_b8, t1_b6, t1_b4, t1_b2, t1_b1, t1_b0]"
    by (simp add: LoadBlocks_def tree1_defs store_defs word_order_nat)
  have second: "LoadBlocks test_env tree1 0 5 (test_root t1_b5) = Inr [t1_b5, t1_b3, t1_b1, t1_b0]"
    by (simp add: LoadBlocks_def tree1_defs store_defs word_order_nat)
  have third: "LoadBlocks test_env tree1 0 7 (test_root t1_b7)
       = Inr [t1_b7, t1_b6, t1_b4, t1_b2, t1_b1, t1_b0]"
    by (simp add: LoadBlocks_def tree1_defs store_defs word_order_nat)
  from LoadBlocks_end_root_must_match [where env = test_env and s = tree1 and startSlot = 0
      and endSlot = 5 and endRoot = "test_root t1_b8" and endBlock = t1_b8
      and rs = "[test_root t1_b0, test_root t1_b1, test_root t1_b2, test_root t1_b3,
                 test_root t1_b4, test_root t1_b5]"]
    rs eb above
  have "LoadBlocks test_env tree1 0 5 (test_root t1_b8) = Inl (Err ChainMismatch)"
    by blast
  with rs eb above first second third show ?thesis by simp
qed

section \<open>The start state of the skip-slot backfill\<close>

text \<open>
  C5 asks that \<^verbatim>\<open>handleLastValidState\<close> check the boundary-map lookup for the slot one
  epoch back and surface a miss. The code drops the lookup's ok flag: on a miss it
  goes on with the zero root as the key of the start state, exactly as if the zero root
  had been cached for that slot.
\<close>

theorem handleLastValidState_miss_is_zero_root:
  "epochBoundarySlotToRoot s (sl - SlotsPerEpoch env) = None \<longrightarrow>
   fst (epochBoundaryRoot s (sl - SlotsPerEpoch env)) = 0
   \<and> fst (handleLastValidState env s sl)
       = fst (handleLastValidState env
               (s\<lparr>epochBoundarySlotToRoot :=
                    (epochBoundarySlotToRoot s)(sl - SlotsPerEpoch env \<mapsto> 0)\<rparr>) sl)"
  by (simp add: handleLastValidState_def epochBoundaryRoot_def Let_def
      LoadBlocks_cache_independent split: sum.splits option.splits)

text \<open>
  Tree 1 has no block at slot 16 and nothing is cached for slot 8. With a state stored
  under the zero root the backfill replays from that state and stores the result under
  B8's root; with no such state it dereferences a nil state. Neither is an error saying
  that the boundary is missing.
\<close>

theorem handleLastValidState_miss_is_zero_root_witness:
  "epochBoundarySlotToRoot tree1_zero (16 - SlotsPerEpoch test_env) = None
   \<and> epochBoundaryRoot tree1_zero (16 - SlotsPerEpoch test_env) = (0, False)
   \<and> db_State (beaconDB tree1_zero) 0 = Inr (Some \<lparr>st_Slot = 5, st_Payload = 0\<rparr>)
   \<and> fst (handleLastValidState test_env tree1_zero 16) = Inr (test_root t1_b8)
   \<and> states (beaconDB (snd (handleLastValidState test_env tree1_zero 16))) (test_root t1_b8)
       = Some \<lparr>st_Slot = 16, st_Payload = 2\<rparr>
   \<and> fst (handleLastValidState test_env
            (tree1_zero\<lparr>epochBoundarySlotToRoot :=
               (epochBoundarySlotToRoot tree1_zero)(16 - SlotsPerEpoch test_env \<mapsto> 0)\<rparr>) 16)
       = Inr (test_root t1_b8)
   \<and> epochBoundarySlotToRoot tree1 (16 - SlotsPerEpoch test_env) = None
   \<and> fst (handleLastValidState test_env tree1 16) = Inl (Panic NilDereference)"
proof -
  have miss: "epochBoundarySlotToRoot tree1_zero (16 - SlotsPerEpoch test_env) = None"
    by (simp add: tree1_zero_def tree1_defs)
  have look: "epochBoundaryRoot tree1_zero (16 - SlotsPerEpoch test_env) = (0, False)"
    by (simp add: epochBoundaryRoot_def tree1_zero_def tree1_defs)
  have st: "db_State (beaconDB tree1_zero) 0 = Inr (Some \<lparr>st_Slot = 5, st_Payload = 0\<rparr>)"
    by (simp add: tree1_zero_def tree1_defs store_defs)
  have run: "fst (handleLastValidState test_env tree1_zero 16) = Inr (test_root t1_b8)
     \<and> states (beaconDB (snd (handleLastValidState test_env tree1_zero 16))) (test_root t1_b8)
       = Some \<lparr>st_Slot = 16, st_Payload = 2\<rparr>"
    by (simp add: handleLastValidState_def epochBoundaryRoot_def LoadBlocks_def
        replayBlocks_def tree1_zero_def tree1_defs store_defs word_order_nat)
  have miss1: "epochBoundarySlotToRoot tree1 (16 - SlotsPerEpoch test_env) = None"
    by (simp add: tree1_defs)
  have nil: "fst (handleLastValidState test_env tree1 16) = Inl (Panic NilDereference)"
    by (simp add: handleLastValidState_def epochBoundaryRoot_def tree1_defs store_defs
        word_order_nat)
  from handleLastValidState_miss_is_zero_root [of tree1_zero 16 test_env] miss run
  have "fst (handleLastValidState test_env
            (tree1_zero\<lparr>epochBoundarySlotToRoot :=
               (epochBoundarySlotToRoot tree1_zero)(16 - SlotsPerEpoch test_env \<mapsto> 0)\<rparr>) 16)
       = Inr (test_root t1_b8)"
    by simp
  with miss look st run miss1 nil show ?thesis by simp
qed

end
